theory Spec2Isabelle
  imports Complex_Main
begin

section \<open>The tile scraper (tile-scrapper.py)\<close>

text \<open>
  A shallow embedding of \<^verbatim>\<open>tile-scrapper.py\<close>. The external services (the tile source
  reached through \<^verbatim>\<open>requests.get\<close>, the S3 client, the clock) are not part of the
  program: what they answer is an input of the model, and what the program asks of them is
  recorded in a trace of events.
\<close>

subsection \<open>Configuration\<close>

text \<open>The module constants \<^verbatim>\<open>MAX_RETRIES\<close> and \<^verbatim>\<open>RETRY_DELAY\<close> (3 and 1 by default).\<close>

record config =
  MAX_RETRIES :: nat
  RETRY_DELAY :: nat

definition default_config :: config where
  "default_config = \<lparr>MAX_RETRIES = 3, RETRY_DELAY = 1\<rparr>"

definition DESTINATION_PREFIX :: string where
  "DESTINATION_PREFIX = ''raster''"

subsection \<open>What the outside world answers\<close>

text \<open>
  \<^verbatim>\<open>s3_client.head_object\<close> returns, raises \<^verbatim>\<open>ClientError\<close> with an error code, or
  raises an exception that is not a \<^verbatim>\<open>ClientError\<close> (botocore's connection and
  credential errors derive from \<^verbatim>\<open>BotoCoreError\<close>).
\<close>

datatype head_result = HeadFound | HeadClientError string | HeadOtherError

text \<open>
  \<^verbatim>\<open>requests.get(url, stream=True, timeout=15)\<close> returns a response (status code and
  body), raises \<^verbatim>\<open>requests.exceptions.Timeout\<close>, or raises another exception.
\<close>

datatype fetch_result = Response int "nat list" | Timeout | FetchError

datatype put_result = PutOk | PutError

text \<open>
  The answers one job meets: the existence check, then the fetch and the store write of
  each attempt (numbered from 0, as \<^verbatim>\<open>attempt\<close> is).
\<close>

record world =
  head_object :: head_result
  get :: "nat \<Rightarrow> fetch_result"
  put_object :: "nat \<Rightarrow> put_result"

subsection \<open>Effects\<close>

datatype level = Info | Warning | Error

datatype event =
    EvHead string
  | EvPrint
  | EvGet int int int
  | EvPut string "nat list"
  | EvSleep nat
  | EvLog level
  | EvStats string
  | EvPbar

datatype py_error = BotoCoreError | ZeroDivisionError | AttributeError | KeyError | ValueError | OverflowError

text \<open>
  The global \<^verbatim>\<open>stats\<close> dictionary has its four keys from the start and
  \<^verbatim>\<open>update_stats\<close> is only called with these four literals, so the dictionary is a
  total function on keys here.
\<close>

record state =
  stats :: "string \<Rightarrow> int"
  trace :: "event list"

definition initial_stats :: "string \<Rightarrow> int" where
  "initial_stats = (\<lambda>_. 0)"

definition emit :: "event \<Rightarrow> state \<Rightarrow> state" where
  "emit e st = st\<lparr>trace := trace st @ [e]\<rparr>"

definition update_stats :: "string \<Rightarrow> state \<Rightarrow> state" where
  "update_stats key st = emit (EvStats key) (st\<lparr>stats := (stats st)(key := stats st key + 1)\<rparr>)"

definition pbar_update :: "bool \<Rightarrow> state \<Rightarrow> state" where
  "pbar_update pbar st = (if pbar then emit EvPbar st else st)"

definition stats_total :: "(string \<Rightarrow> int) \<Rightarrow> int" where
  "stats_total s = s ''success'' + s ''skipped'' + s ''not_found'' + s ''failed''"

subsection \<open>Keys\<close>

definition digit :: "nat \<Rightarrow> char" where
  "digit d = ''0123456789'' ! d"

fun str_nat :: "nat \<Rightarrow> string" where
  "str_nat n = (if n < 10 then [digit n] else str_nat (n div 10) @ [digit (n mod 10)])"

declare str_nat.simps [simp del]

definition str_int :: "int \<Rightarrow> string" where
  "str_int i = (if i < 0 then CHR ''-'' # str_nat (nat (- i)) else str_nat (nat i))"

definition s3_key_of :: "int \<Rightarrow> int \<Rightarrow> int \<Rightarrow> string" where
  "s3_key_of z x y =
     DESTINATION_PREFIX @ ''/'' @ str_int z @ ''/'' @ str_int x @ ''/'' @ str_int y @ ''.png''"

subsection \<open>check_exists\<close>

definition check_exists :: "world \<Rightarrow> string \<Rightarrow> state \<Rightarrow> state \<times> (py_error + bool)" where
  "check_exists w s3_key st =
     (let st1 = emit (EvHead s3_key) st in
      case head_object w of
        HeadFound \<Rightarrow> (st1, Inr True)
      | HeadClientError code \<Rightarrow>
          if code = ''404'' then (st1, Inr False)
          else (emit EvPrint st1, Inr False)
      | HeadOtherError \<Rightarrow> (st1, Inl BotoCoreError))"

subsection \<open>upload_tile\<close>

text \<open>
  The end of one pass through the body of the retry loop:
  \<^verbatim>\<open>if attempt < MAX_RETRIES - 1: time.sleep(RETRY_DELAY)\<close>.
\<close>

definition end_of_attempt :: "config \<Rightarrow> nat \<Rightarrow> state \<Rightarrow> state" where
  "end_of_attempt cfg attempt st =
     (if int attempt < int (MAX_RETRIES cfg) - 1 then emit (EvSleep (RETRY_DELAY cfg)) st else st)"

text \<open>
  The loop \<^verbatim>\<open>for attempt in range(MAX_RETRIES)\<close>, over the attempts still to make.
  \<open>Some r\<close> is a \<^verbatim>\<open>return r\<close> inside the loop, \<open>None\<close> is the loop running out.
\<close>

fun retry_loop ::
  "config \<Rightarrow> world \<Rightarrow> int \<Rightarrow> int \<Rightarrow> int \<Rightarrow> bool \<Rightarrow> nat list \<Rightarrow> state \<Rightarrow> state \<times> string option"
where
  "retry_loop cfg w z x y pbar [] st = (st, None)"
| "retry_loop cfg w z x y pbar (attempt # rest) st =
     (let st1 = emit (EvGet z x y) st in
      case get w attempt of
        Response status_code content \<Rightarrow>
          if status_code = 200 then
            if length content > 0 then
              (let st2 = emit (EvPut (s3_key_of z x y) content) st1 in
               case put_object w attempt of
                 PutOk \<Rightarrow> (pbar_update pbar (update_stats ''success'' st2), Some ''success'')
               | PutError \<Rightarrow>
                   retry_loop cfg w z x y pbar rest (end_of_attempt cfg attempt (emit (EvLog Error) st2)))
            else retry_loop cfg w z x y pbar rest (end_of_attempt cfg attempt (emit (EvLog Warning) st1))
          else if status_code = 404 then
            (pbar_update pbar (update_stats ''not_found'' (emit (EvLog Info) st1)), Some ''not_found'')
          else retry_loop cfg w z x y pbar rest (end_of_attempt cfg attempt (emit (EvLog Warning) st1))
      | Timeout \<Rightarrow>
          retry_loop cfg w z x y pbar rest (end_of_attempt cfg attempt (emit (EvLog Warning) st1))
      | FetchError \<Rightarrow>
          retry_loop cfg w z x y pbar rest (end_of_attempt cfg attempt (emit (EvLog Error) st1)))"

text \<open>
  \<open>Inl e\<close> is an exception leaving \<^verbatim>\<open>upload_tile\<close>: the call of \<^verbatim>\<open>check_exists\<close>
  is outside every \<^verbatim>\<open>try\<close>.
\<close>

definition upload_tile ::
  "config \<Rightarrow> world \<Rightarrow> int \<Rightarrow> int \<Rightarrow> int \<Rightarrow> bool \<Rightarrow> state \<Rightarrow> state \<times> (py_error + string)"
where
  "upload_tile cfg w z x y pbar st =
     (case check_exists w (s3_key_of z x y) st of
        (st1, Inl e) \<Rightarrow> (st1, Inl e)
      | (st1, Inr True) \<Rightarrow> (pbar_update pbar (update_stats ''skipped'' st1), Inr ''skipped'')
      | (st1, Inr False) \<Rightarrow>
          (case retry_loop cfg w z x y pbar [0..<MAX_RETRIES cfg] st1 of
             (st2, Some r) \<Rightarrow> (st2, Inr r)
           | (st2, None) \<Rightarrow>
               (pbar_update pbar (emit (EvLog Error) (update_stats ''failed'' st2)), Inr ''failed'')))"

text \<open>What a trace shows of the source: the calls and the pauses between them.\<close>

fun is_get :: "event \<Rightarrow> bool" where
  "is_get (EvGet z x y) = True"
| "is_get e = False"

fun is_put :: "event \<Rightarrow> bool" where
  "is_put (EvPut k c) = True"
| "is_put e = False"

fun is_get_or_sleep :: "event \<Rightarrow> bool" where
  "is_get_or_sleep (EvGet z x y) = True"
| "is_get_or_sleep (EvSleep d) = True"
| "is_get_or_sleep e = False"


subsection \<open>The worker pool\<close>

text \<open>
  \<^verbatim>\<open>main\<close> submits every job to a \<^verbatim>\<open>ThreadPoolExecutor\<close> and waits for all futures.
  The counters are only touched under \<^verbatim>\<open>stats_lock\<close>, one increment at a time, so the
  counters after the run are those of the jobs run one after the other in some order; a
  job's exception is kept in its future (nobody reads it) and the other jobs go on.
  A job is its tile and the answers it meets.
\<close>

fun run_jobs ::
  "config \<Rightarrow> bool \<Rightarrow> (int \<times> int \<times> int \<times> world) list \<Rightarrow> state
     \<Rightarrow> state \<times> (py_error + string) list"
where
  "run_jobs cfg pbar [] st = (st, [])"
| "run_jobs cfg pbar ((z, x, y, w) # jobs) st =
     (case upload_tile cfg w z x y pbar st of
        (st1, r) \<Rightarrow> (case run_jobs cfg pbar jobs st1 of (st2, rs) \<Rightarrow> (st2, r # rs)))"

subsection \<open>deg2num\<close>

text \<open>
  The source computes with Python floats. \<open>deg2num\<close> is the formula of the source over
  the exact real numbers: the reading of the claims about the formula itself (C2, C4,
  C10). Rounding, and the exceptions Python raises, are modelled by \<open>deg2num_fl\<close> below,
  the reading of the claims about the range of the result and about failure (C1, C8).

  \<^verbatim>\<open>int(v)\<close> on a float truncates toward zero.
\<close>

definition py_int :: "real \<Rightarrow> int" where
  "py_int v = (if 0 \<le> v then \<lfloor>v\<rfloor> else \<lceil>v\<rceil>)"

definition radians :: "real \<Rightarrow> real" where
  "radians d = d * (pi / 180)"

definition deg2num :: "real \<Rightarrow> real \<Rightarrow> int \<Rightarrow> int \<times> int" where
  "deg2num lat_deg lon_deg zoom =
     (let lat_rad = radians lat_deg;
          n = 2 powi zoom;
          xtile = py_int ((lon_deg + 180) / 360 * n);
          ytile = py_int ((1 - arsinh (tan lat_rad) / pi) / 2 * n)
      in (xtile, ytile))"


subsection \<open>deg2num in double precision\<close>

text \<open>
  A Python float is an IEEE 754 double. \<open>rnd\<close> rounds a real number to the nearest
  double, ties to the even neighbour: in the binade of \<open>v\<close> the doubles are the multiples
  of \<open>2 ^ ulp_exponent v\<close> (53 significant bits; below \<open>2^-1022\<close> the spacing stays
  \<open>2^-1074\<close>). The exponent is not bounded above: a result of magnitude \<open>2^1024\<close> or more
  stands for an infinity. Every arithmetic operation of the source is the exact operation
  followed by \<open>rnd\<close>. The arguments are finite numbers; infinities and NaN as arguments
  are outside the model.
\<close>

definition round_even :: "real \<Rightarrow> int" where
  "round_even t =
     (if t - of_int \<lfloor>t\<rfloor> < 1 / 2 then \<lfloor>t\<rfloor>
      else if 1 / 2 < t - of_int \<lfloor>t\<rfloor> then \<lfloor>t\<rfloor> + 1
      else if even \<lfloor>t\<rfloor> then \<lfloor>t\<rfloor> else \<lfloor>t\<rfloor> + 1)"

definition ulp_exponent :: "real \<Rightarrow> int" where
  "ulp_exponent v = max \<lfloor>log 2 \<bar>v\<bar>\<rfloor> (- 1022) - 52"

definition rnd :: "real \<Rightarrow> real" where
  "rnd v = of_int (round_even (v / 2 powi ulp_exponent v)) * 2 powi ulp_exponent v"

text \<open>
  \<^verbatim>\<open>math.pi\<close>, and the constant \<^verbatim>\<open>pi / 180.0\<close> by which CPython's \<^verbatim>\<open>math.radians\<close>
  multiplies its argument, as the doubles they are.
\<close>

definition M_PI :: real where
  "M_PI = 884279719003555 / 2 ^ 48"

definition degToRad :: real where
  "degToRad = 5030569068109113 / 2 ^ 58"

definition fl_radians :: "real \<Rightarrow> real" where
  "fl_radians x = rnd (x * degToRad)"

text \<open>
  \<^verbatim>\<open>math.tan\<close> and \<^verbatim>\<open>math.asinh\<close> are the platform's C library: what they answer is an
  input of the model. A library is accurate when each answer is within a relative error
  of \<open>2^-20\<close> of the exact value (the libraries in use are accurate to a few units in the
  last of 53 bits).
\<close>

record mathlib =
  m_tan :: "real \<Rightarrow> real"
  m_asinh :: "real \<Rightarrow> real"

definition accurate :: "mathlib \<Rightarrow> bool" where
  "accurate L \<longleftrightarrow>
     (\<forall>v. cos v \<noteq> 0 \<longrightarrow> \<bar>m_tan L v - tan v\<bar> \<le> \<bar>tan v\<bar> / 2 ^ 20)
   \<and> (\<forall>v. \<bar>m_asinh L v - arsinh v\<bar> \<le> \<bar>arsinh v\<bar> / 2 ^ 20)"

text \<open>
  The library that answers exactly, and the answers observed on the platform (glibc) at
  the arguments met for the latitude 90: \<^verbatim>\<open>math.radians(90)\<close> is \<^verbatim>\<open>math.pi / 2\<close>
  \<open>= 1.5707963267948966\<close>, \<^verbatim>\<open>math.tan\<close> of it is \<open>16331239353195370.0\<close>, and
  \<^verbatim>\<open>math.asinh\<close> of that is \<open>38.025003373828866\<close> \<open>= 1337885867383887 / 2^45\<close>; at other
  arguments the exact value stands in.
\<close>

definition exact_libm :: mathlib where
  "exact_libm = \<lparr>m_tan = tan, m_asinh = arsinh\<rparr>"

definition observed_libm :: mathlib where
  "observed_libm =
     \<lparr>m_tan = (\<lambda>v. if v = M_PI / 2 then 16331239353195370 else tan v),
      m_asinh = (\<lambda>v. if v = 16331239353195370 then 1337885867383887 / 2 ^ 45 else arsinh v)\<rparr>"

text \<open>
  \<^verbatim>\<open>int(v)\<close>: \<^verbatim>\<open>OverflowError\<close> for an infinity, else truncation toward zero.
\<close>

definition fl_int :: "real \<Rightarrow> py_error + int" where
  "fl_int v = (if 2 ^ 1024 \<le> \<bar>v\<bar> then Inl OverflowError else Inr (py_int v))"

text \<open>
  \<^verbatim>\<open>deg2num\<close> in double precision. \<^verbatim>\<open>2.0 ** zoom\<close> raises \<^verbatim>\<open>OverflowError\<close> when the
  power is not a double (\<open>zoom > 1023\<close>) and underflows to \<open>0.0\<close> silently. Only the last
  product of each tile can overflow; \<^verbatim>\<open>int\<close> then raises.
\<close>

definition deg2num_fl :: "mathlib \<Rightarrow> real \<Rightarrow> real \<Rightarrow> int \<Rightarrow> py_error + int \<times> int" where
  "deg2num_fl L lat_deg lon_deg zoom =
     (if 1023 < zoom then Inl OverflowError
      else
        (let lat_rad = fl_radians lat_deg;
             n = rnd (2 powi zoom)
         in case fl_int (rnd (rnd (rnd (lon_deg + 180) / 360) * n)) of
              Inl e \<Rightarrow> Inl e
            | Inr xtile \<Rightarrow>
                (case fl_int (rnd (rnd (rnd (1 - rnd (m_asinh L (m_tan L lat_rad) / M_PI)) / 2) * n)) of
                   Inl e \<Rightarrow> Inl e
                 | Inr ytile \<Rightarrow> Inr (xtile, ytile))))"

subsection \<open>calculate_tile_count\<close>

text \<open>A bounding box is \<^verbatim>\<open>[min_lon, min_lat, max_lon, max_lat]\<close>.\<close>

type_synonym bbox = "real \<times> real \<times> real \<times> real"

definition BOUNDING_BOX :: bbox where
  "BOUNDING_BOX = (94.5, -11.5, 141.5, 6.0)"

text \<open>One pass through the body of the loop \<^verbatim>\<open>for z in range(min_zoom, max_zoom + 1)\<close>.\<close>

definition count_step ::
  "bbox \<Rightarrow> int \<times> (int \<times> int \<times> int \<times> int \<times> int \<times> int) list \<Rightarrow> int
     \<Rightarrow> int \<times> (int \<times> int \<times> int \<times> int \<times> int \<times> int) list"
where
  "count_step bbox acc z =
     (case acc of (total_so_far, details) \<Rightarrow>
      case bbox of (min_lon, min_lat, max_lon, max_lat) \<Rightarrow>
      case deg2num max_lat min_lon z of (x_min, y_min) \<Rightarrow>
      case deg2num min_lat max_lon z of (x_max, y_max) \<Rightarrow>
        (let start_x = min x_min x_max; end_x = max x_min x_max;
             start_y = min y_min y_max; end_y = max y_min y_max;
             count = (end_x - start_x + 1) * (end_y - start_y + 1)
         in (total_so_far + count, details @ [(z, count, start_x, end_x, start_y, end_y)])))"

definition calculate_tile_count ::
  "int \<Rightarrow> int \<Rightarrow> bbox \<Rightarrow> int \<times> (int \<times> int \<times> int \<times> int \<times> int \<times> int) list"
where
  "calculate_tile_count min_zoom max_zoom bbox = foldl (count_step bbox) (0, []) [min_zoom..max_zoom]"

subsection \<open>The submission loop of main\<close>

text \<open>
  The tiles \<^verbatim>\<open>main\<close> submits for one zoom level, in the order of its two inner loops,
  and for the whole zoom range.
\<close>

definition submit_zoom :: "bbox \<Rightarrow> int \<Rightarrow> (int \<times> int \<times> int) list" where
  "submit_zoom bbox z =
     (case bbox of (min_lon, min_lat, max_lon, max_lat) \<Rightarrow>
      case deg2num max_lat min_lon z of (x_min, y_min) \<Rightarrow>
      case deg2num min_lat max_lon z of (x_max, y_max) \<Rightarrow>
        (let start_x = min x_min x_max; end_x = max x_min x_max;
             start_y = min y_min y_max; end_y = max y_min y_max
         in concat (map (\<lambda>x. map (\<lambda>y. (z, x, y)) [start_y..end_y]) [start_x..end_x])))"

definition submitted_jobs :: "int \<Rightarrow> int \<Rightarrow> bbox \<Rightarrow> (int \<times> int \<times> int) list" where
  "submitted_jobs min_zoom max_zoom bbox = concat (map (submit_zoom bbox) [min_zoom..max_zoom])"

text \<open>
  The rectangle of the specification's planner for one zoom level: the tiles of the
  corners \<open>(maxLat, minLon)\<close> and \<open>(minLat, maxLon)\<close>, normalised with min and max;
  returned as \<open>(xStart, xEnd, yStart, yEnd)\<close>.
\<close>

definition plan_rect :: "bbox \<Rightarrow> int \<Rightarrow> int \<times> int \<times> int \<times> int" where
  "plan_rect bbox z =
     (case bbox of (minLon, minLat, maxLon, maxLat) \<Rightarrow>
        (min (fst (deg2num maxLat minLon z)) (fst (deg2num minLat maxLon z)),
         max (fst (deg2num maxLat minLon z)) (fst (deg2num minLat maxLon z)),
         min (snd (deg2num maxLat minLon z)) (snd (deg2num minLat maxLon z)),
         max (snd (deg2num maxLat minLon z)) (snd (deg2num minLat maxLon z))))"

definition rect_area :: "int \<times> int \<times> int \<times> int \<Rightarrow> int" where
  "rect_area r = (case r of (xStart, xEnd, yStart, yEnd) \<Rightarrow> (xEnd - xStart + 1) * (yEnd - yStart + 1))"

subsection \<open>benchmark_speed and its caller\<close>

text \<open>The slice \<^verbatim>\<open>xs[:k]\<close>.\<close>

definition py_prefix :: "'a list \<Rightarrow> int \<Rightarrow> 'a list" where
  "py_prefix xs k = (if k < 0 then take (nat (int (length xs) + k)) xs else take (nat k) xs)"

text \<open>The loop \<^verbatim>\<open>for z in [8, 10, 12]\<close> that collects the sample tiles, with its \<^verbatim>\<open>break\<close>.\<close>

fun collect_samples :: "int \<Rightarrow> int list \<Rightarrow> (int \<times> int \<times> int) list \<Rightarrow> (int \<times> int \<times> int) list" where
  "collect_samples num_samples [] sample_tiles = sample_tiles"
| "collect_samples num_samples (z # zs) sample_tiles =
     (case BOUNDING_BOX of (min_lon, min_lat, max_lon, max_lat) \<Rightarrow>
      case deg2num max_lat min_lon z of (x_min, y_min) \<Rightarrow>
      case deg2num min_lat max_lon z of (x_max, y_max) \<Rightarrow>
        (let mid_x = (x_min + x_max) div 2;
             mid_y = (y_min + y_max) div 2;
             sample_tiles' = sample_tiles @ [(z, mid_x, mid_y), (z, mid_x + 1, mid_y), (z, mid_x, mid_y + 1)]
         in if int (length sample_tiles') \<ge> num_samples then sample_tiles'
            else collect_samples num_samples zs sample_tiles'))"

definition sample_tiles_of :: "int \<Rightarrow> (int \<times> int \<times> int) list" where
  "sample_tiles_of num_samples = py_prefix (collect_samples num_samples [8, 10, 12] []) num_samples"

text \<open>
  \<^verbatim>\<open>SOURCE_URL_PATTERN\<close> is read from the environment (\<^verbatim>\<open>None\<close> when the variable is
  unset). What \<^verbatim>\<open>SOURCE_URL_PATTERN.format(z=z, x=x, y=y)\<close> answers is an input of the
  model: the URL, or the exception the call raises (\<^verbatim>\<open>AttributeError\<close> for \<^verbatim>\<open>None\<close>;
  \<^verbatim>\<open>KeyError\<close>, \<^verbatim>\<open>IndexError\<close> or \<^verbatim>\<open>ValueError\<close> for a pattern \<^verbatim>\<open>str.format\<close> rejects).
\<close>

type_synonym url_pattern = "int \<Rightarrow> int \<Rightarrow> int \<Rightarrow> py_error + string"

text \<open>The unset pattern, and the pattern \<^verbatim>\<open>https://tiles.example/{z}/{x}/{y}.png\<close>.\<close>

definition unset_pattern :: url_pattern where
  "unset_pattern = (\<lambda>z x y. Inl AttributeError)"


text \<open>
  What one sample meets: the answer of the source, the answer of the store write (asked
  only after a 200), and the wall time \<^verbatim>\<open>time.time() - start\<close> measured for it.
\<close>

record sample =
  sample_get :: fetch_result
  sample_put :: put_result
  sample_elapsed :: real

text \<open>
  The measuring loop over the sample tiles, each with what it meets. The URL is formatted
  before the \<^verbatim>\<open>try\<close>: an exception there leaves \<^verbatim>\<open>benchmark_speed\<close> (\<open>Inl\<close>). A sample
  whose \<^verbatim>\<open>try\<close> block raises (in the fetch or in the store write) is reported and skipped;
  every other sample appends its time, whatever the status code.
\<close>

fun measure_samples ::
  "url_pattern \<Rightarrow> ((int \<times> int \<times> int) \<times> sample) list \<Rightarrow> real list \<Rightarrow> py_error + real list"
where
  "measure_samples fmt [] timings = Inr timings"
| "measure_samples fmt (((z, x, y), s) # rest) timings =
     (case fmt z x y of
        Inl e \<Rightarrow> Inl e
      | Inr url \<Rightarrow>
          (case sample_get s of
             Response status_code content \<Rightarrow>
               if status_code = 200 then
                 (case sample_put s of
                    PutOk \<Rightarrow> measure_samples fmt rest (timings @ [sample_elapsed s])
                  | PutError \<Rightarrow> measure_samples fmt rest timings)
               else measure_samples fmt rest (timings @ [sample_elapsed s])
           | Timeout \<Rightarrow> measure_samples fmt rest timings
           | FetchError \<Rightarrow> measure_samples fmt rest timings))"

text \<open>
  \<open>answers\<close> gives what the \<open>i\<close>-th sample meets. \<open>Inr None\<close> is the return of Python's
  \<^verbatim>\<open>None\<close>, \<open>Inl e\<close> an exception leaving \<^verbatim>\<open>benchmark_speed\<close>.
\<close>

definition benchmark_speed :: "url_pattern \<Rightarrow> (nat \<Rightarrow> sample) \<Rightarrow> int \<Rightarrow> py_error + real option" where
  "benchmark_speed fmt answers num_samples =
     (let sample_tiles = sample_tiles_of num_samples in
      case measure_samples fmt (zip sample_tiles (map answers [0..<length sample_tiles])) [] of
        Inl e \<Rightarrow> Inl e
      | Inr timings \<Rightarrow>
          Inr (if timings = [] then None else Some (sum_list timings / real (length timings))))"

definition estimate_time :: "int \<Rightarrow> real \<Rightarrow> int \<Rightarrow> py_error + real" where
  "estimate_time total_tiles avg_time_per_tile workers =
     (if workers = 0 then Inl ZeroDivisionError
      else Inr ((real_of_int total_tiles * avg_time_per_tile) / real_of_int workers * 1.2))"

text \<open>
  What \<^verbatim>\<open>main\<close> prints after the benchmark: the results (average and estimated seconds)
  or the warning; \<^verbatim>\<open>if avg_time:\<close> is false for \<^verbatim>\<open>None\<close> and for \<open>0.0\<close>. \<open>Inl\<close> is an
  exception leaving \<^verbatim>\<open>main\<close>: nothing in \<^verbatim>\<open>main\<close> catches what \<^verbatim>\<open>benchmark_speed\<close> raises.
\<close>

datatype report = Benchmark_Results real real | Could_Not_Benchmark

definition main_benchmark :: "url_pattern \<Rightarrow> (nat \<Rightarrow> sample) \<Rightarrow> int \<Rightarrow> int \<Rightarrow> py_error + report" where
  "main_benchmark fmt answers total_tiles workers =
     (case benchmark_speed fmt answers 10 of
        Inl e \<Rightarrow> Inl e
      | Inr None \<Rightarrow> Inr Could_Not_Benchmark
      | Inr (Some avg_time) \<Rightarrow>
          if avg_time \<noteq> 0 then
            (case estimate_time total_tiles avg_time workers of
               Inl e \<Rightarrow> Inl e
             | Inr estimated_seconds \<Rightarrow> Inr (Benchmark_Results avg_time estimated_seconds))
          else Inr Could_Not_Benchmark)"



section \<open>Properties of upload_tile\<close>

lemma upt_0_3: "[0..<3] = [0, Suc 0, 2]"
  by (simp add: upt_rec)

text \<open>
  C5. A job whose tile is not in the store (the existence check answers with a
  \<^verbatim>\<open>ClientError\<close>, which \<^verbatim>\<open>check_exists\<close> turns into \<^verbatim>\<open>False\<close>) and whose every fetch
  times out, with \<^verbatim>\<open>MAX_RETRIES = 3\<close>: the outcome is \<^verbatim>\<open>failed\<close>, the source is called
  exactly three times, and between two consecutive calls the job sleeps for
  \<^verbatim>\<open>RETRY_DELAY\<close>. Only the \<^verbatim>\<open>failed\<close> counter moves, by one.
\<close>

theorem upload_tile_all_timeouts:
  assumes "head_object w = HeadClientError code"
    and "\<And>attempt. get w attempt = Timeout"
    and "MAX_RETRIES cfg = 3"
  shows "snd (upload_tile cfg w z x y pbar st) = Inr ''failed''
    \<and> filter is_get_or_sleep (trace (fst (upload_tile cfg w z x y pbar st)))
        = filter is_get_or_sleep (trace st)
          @ [EvGet z x y, EvSleep (RETRY_DELAY cfg), EvGet z x y, EvSleep (RETRY_DELAY cfg), EvGet z x y]
    \<and> length (filter is_get (trace (fst (upload_tile cfg w z x y pbar st))))
        = length (filter is_get (trace st)) + 3
    \<and> stats (fst (upload_tile cfg w z x y pbar st)) = (stats st)(''failed'' := stats st ''failed'' + 1)"
  using assms
  by (simp add: upload_tile_def check_exists_def upt_0_3 end_of_attempt_def emit_def
      update_stats_def pbar_update_def Let_def)

theorem upload_tile_all_timeouts_witness:
  "snd (upload_tile default_config
          \<lparr>head_object = HeadClientError ''404'', get = (\<lambda>_. Timeout), put_object = (\<lambda>_. PutOk)\<rparr>
          2 3 1 True \<lparr>stats = initial_stats, trace = []\<rparr>) = Inr ''failed''
   \<and> filter is_get_or_sleep (trace (fst (upload_tile default_config
          \<lparr>head_object = HeadClientError ''404'', get = (\<lambda>_. Timeout), put_object = (\<lambda>_. PutOk)\<rparr>
          2 3 1 True \<lparr>stats = initial_stats, trace = []\<rparr>)))
       = [EvGet 2 3 1, EvSleep 1, EvGet 2 3 1, EvSleep 1, EvGet 2 3 1]"
  using upload_tile_all_timeouts [of
      "\<lparr>head_object = HeadClientError ''404'', get = (\<lambda>_. Timeout), put_object = (\<lambda>_. PutOk)\<rparr>"
      "''404''" default_config 2 3 1 True "\<lparr>stats = initial_stats, trace = []\<rparr>"]
  by (simp add: default_config_def)

text \<open>
  C6. A job whose tile is not in the store and whose source answers 404: the outcome is
  \<^verbatim>\<open>not_found\<close>, the source is called once, nothing is written to the store, and the
  \<^verbatim>\<open>not_found\<close> counter moves by one while \<^verbatim>\<open>failed\<close> (and every other counter) stays.
\<close>

theorem upload_tile_404:
  assumes "head_object w = HeadClientError code"
    and "get w 0 = Response 404 body"
    and "0 < MAX_RETRIES cfg"
  shows "snd (upload_tile cfg w z x y pbar st) = Inr ''not_found''
    \<and> filter is_get (trace (fst (upload_tile cfg w z x y pbar st)))
        = filter is_get (trace st) @ [EvGet z x y]
    \<and> filter is_put (trace (fst (upload_tile cfg w z x y pbar st))) = filter is_put (trace st)
    \<and> stats (fst (upload_tile cfg w z x y pbar st))
        = (stats st)(''not_found'' := stats st ''not_found'' + 1)
    \<and> stats (fst (upload_tile cfg w z x y pbar st)) ''failed'' = stats st ''failed''"
  using assms
  by (simp add: upload_tile_def check_exists_def upt_rec [of 0] emit_def
      update_stats_def pbar_update_def Let_def)

theorem upload_tile_404_witness:
  "upload_tile default_config
      \<lparr>head_object = HeadClientError ''404'', get = (\<lambda>_. Response 404 []), put_object = (\<lambda>_. PutOk)\<rparr>
      2 3 1 False \<lparr>stats = initial_stats, trace = []\<rparr>
   = (\<lparr>stats = initial_stats(''not_found'' := 1),
       trace = [EvHead ''raster/2/3/1.png'', EvGet 2 3 1, EvLog Info, EvStats ''not_found'']\<rparr>,
      Inr ''not_found'')"
  using upload_tile_404 [of
      "\<lparr>head_object = HeadClientError ''404'', get = (\<lambda>_. Response 404 []), put_object = (\<lambda>_. PutOk)\<rparr>"
      "''404''" "[]" default_config 2 3 1 False "\<lparr>stats = initial_stats, trace = []\<rparr>"]
  by (simp add: default_config_def upload_tile_def check_exists_def upt_rec [of 0] emit_def
      update_stats_def pbar_update_def Let_def initial_stats_def s3_key_of_def str_int_def
      str_nat.simps digit_def DESTINATION_PREFIX_def)

text \<open>
  C7. A job whose existence check finds the key: the outcome is \<^verbatim>\<open>skipped\<close>; after the
  check itself the job only increments the \<^verbatim>\<open>skipped\<close> counter and, when a progress bar
  was passed, updates it. The source is not called and nothing is written.
\<close>

theorem upload_tile_exists:
  assumes "head_object w = HeadFound"
  shows "upload_tile cfg w z x y pbar st
       = (st\<lparr>stats := (stats st)(''skipped'' := stats st ''skipped'' + 1),
              trace := trace st @ [EvHead (s3_key_of z x y), EvStats ''skipped'']
                        @ (if pbar then [EvPbar] else [])\<rparr>,
          Inr ''skipped'')"
  using assms
  by (simp add: upload_tile_def check_exists_def emit_def update_stats_def pbar_update_def Let_def)

theorem upload_tile_exists_witness:
  "upload_tile default_config
      \<lparr>head_object = HeadFound, get = (\<lambda>_. Response 200 [1]), put_object = (\<lambda>_. PutOk)\<rparr>
      2 3 1 True \<lparr>stats = initial_stats, trace = []\<rparr>
   = (\<lparr>stats = initial_stats(''skipped'' := 1),
       trace = [EvHead ''raster/2/3/1.png'', EvStats ''skipped'', EvPbar]\<rparr>,
      Inr ''skipped'')"
  using upload_tile_exists [of
      "\<lparr>head_object = HeadFound, get = (\<lambda>_. Response 200 [1]), put_object = (\<lambda>_. PutOk)\<rparr>"
      default_config 2 3 1 True "\<lparr>stats = initial_stats, trace = []\<rparr>"]
  by (simp add: initial_stats_def s3_key_of_def str_int_def str_nat.simps digit_def DESTINATION_PREFIX_def)


section \<open>The counters after a run\<close>

lemma stats_total_upd:
  "key \<in> {''success'', ''skipped'', ''not_found'', ''failed''} \<Longrightarrow>
   stats_total (s(key := s key + 1)) = stats_total s + 1"
  by (auto simp: stats_total_def)

lemma stats_emit [simp]: "stats (emit e st) = stats st"
  by (simp add: emit_def)

lemma stats_pbar_update [simp]: "stats (pbar_update pbar st) = stats st"
  by (simp add: pbar_update_def)

lemma stats_end_of_attempt [simp]: "stats (end_of_attempt cfg a st) = stats st"
  by (simp add: end_of_attempt_def)

lemma stats_update_stats [simp]:
  "stats (update_stats key st) = (stats st)(key := stats st key + 1)"
  by (simp add: update_stats_def)

text \<open>The retry loop either runs out and leaves the counters alone, or returns after one increment.\<close>

lemma retry_loop_counts:
  "retry_loop cfg w z x y pbar attempts st = (st', r) \<Longrightarrow>
     (case r of
        None \<Rightarrow> stats st' = stats st
      | Some out \<Rightarrow> out \<in> {''success'', ''not_found''}
                     \<and> stats st' = (stats st)(out := stats st out + 1))"
proof (induction attempts arbitrary: st)
  case Nil
  then show ?case by auto
next
  case (Cons a rest)
  then show ?case
    by (auto simp: Let_def split: fetch_result.splits if_splits put_result.splits option.splits)
qed

text \<open>
  As long as the existence check raises nothing but \<^verbatim>\<open>ClientError\<close>, a job returns one of
  the four outcomes and increments the counter of that outcome, once.
\<close>

lemma upload_tile_counts_once:
  assumes "head_object w \<noteq> HeadOtherError"
  shows "\<exists>out \<in> {''success'', ''skipped'', ''not_found'', ''failed''}.
           snd (upload_tile cfg w z x y pbar st) = Inr out
         \<and> stats (fst (upload_tile cfg w z x y pbar st)) = (stats st)(out := stats st out + 1)"
proof (cases "head_object w")
  case HeadFound
  then show ?thesis
    by (simp add: upload_tile_def check_exists_def Let_def)
next
  case (HeadClientError code)
  obtain st' r where rl: "retry_loop cfg w z x y pbar [0..<MAX_RETRIES cfg]
       (if code = ''404'' then emit (EvHead (s3_key_of z x y)) st
        else emit EvPrint (emit (EvHead (s3_key_of z x y)) st)) = (st', r)"
    by (cases "retry_loop cfg w z x y pbar [0..<MAX_RETRIES cfg]
       (if code = ''404'' then emit (EvHead (s3_key_of z x y)) st
        else emit EvPrint (emit (EvHead (s3_key_of z x y)) st))") auto
  from retry_loop_counts [OF rl] rl HeadClientError show ?thesis
    by (cases r) (auto simp: upload_tile_def check_exists_def Let_def split: if_splits)
next
  case HeadOtherError
  with assms show ?thesis by simp
qed

lemma fst_run_jobs_Cons:
  "fst (run_jobs cfg pbar ((z, x, y, w) # jobs) st)
   = fst (run_jobs cfg pbar jobs (fst (upload_tile cfg w z x y pbar st)))"
  by (simp split: prod.splits)

lemma run_jobs_total:
  assumes "\<forall>j \<in> set jobs. head_object (snd (snd (snd j))) \<noteq> HeadOtherError"
  shows "stats_total (stats (fst (run_jobs cfg pbar jobs st))) = stats_total (stats st) + int (length jobs)"
  using assms
proof (induction jobs arbitrary: st)
  case Nil
  then show ?case by simp
next
  case (Cons j jobs)
  obtain z x y w where j: "j = (z, x, y, w)" by (cases j) auto
  from Cons.prems j have h: "head_object w \<noteq> HeadOtherError" by simp
  from upload_tile_counts_once [OF h, of cfg z x y pbar st]
  have "stats_total (stats (fst (upload_tile cfg w z x y pbar st))) = stats_total (stats st) + 1"
    using stats_total_upd by metis
  moreover have "stats_total (stats (fst (run_jobs cfg pbar jobs (fst (upload_tile cfg w z x y pbar st)))))
     = stats_total (stats (fst (upload_tile cfg w z x y pbar st))) + int (length jobs)"
    using Cons.IH Cons.prems by simp
  ultimately show ?case using j
    by (simp only: fst_run_jobs_Cons) simp
qed

text \<open>
  C3. Every job ends in one of the four outcomes and increments one counter once, so the
  four counters add up to the number of jobs. This is what the code does while the
  existence check raises only \<^verbatim>\<open>ClientError\<close> (the two lemmas above). It fails for a job
  whose \<^verbatim>\<open>head_object\<close> call raises another exception: \<^verbatim>\<open>check_exists\<close> catches only
  \<^verbatim>\<open>ClientError\<close> and is called outside the \<^verbatim>\<open>try\<close> of \<^verbatim>\<open>upload_tile\<close>, so the
  exception leaves the job, no counter moves, and one submitted job gives a sum of 0.
\<close>

theorem run_jobs_escaping_error:
  "run_jobs default_config True
     [(2, 3, 1, \<lparr>head_object = HeadOtherError, get = (\<lambda>_. Response 200 [1]), put_object = (\<lambda>_. PutOk)\<rparr>)]
     \<lparr>stats = initial_stats, trace = []\<rparr>
   = (\<lparr>stats = initial_stats, trace = [EvHead ''raster/2/3/1.png'']\<rparr>, [Inl BotoCoreError])
   \<and> stats_total initial_stats = 0"
  by (simp add: upload_tile_def check_exists_def emit_def initial_stats_def s3_key_of_def
      str_int_def str_nat.simps digit_def DESTINATION_PREFIX_def stats_total_def)

section \<open>The plan and the submitted jobs\<close>

lemma length_row: "length (concat (map (\<lambda>x. map (f x) ys) xs)) = length xs * length ys"
  by (induction xs) auto

lemma length_submit_zoom: "int (length (submit_zoom bbox z)) = rect_area (plan_rect bbox z)"
proof -
  obtain min_lon min_lat max_lon max_lat where b: "bbox = (min_lon, min_lat, max_lon, max_lat)"
    by (cases bbox) auto
  obtain x_min y_min where c1: "deg2num max_lat min_lon z = (x_min, y_min)"
    by (cases "deg2num max_lat min_lon z") auto
  obtain x_max y_max where c2: "deg2num min_lat max_lon z = (x_max, y_max)"
    by (cases "deg2num min_lat max_lon z") auto
  have "length (submit_zoom bbox z)
      = length [min x_min x_max..max x_min x_max] * length [min y_min y_max..max y_min y_max]"
    by (simp add: submit_zoom_def b c1 c2 Let_def length_row)
  also have "int \<dots> = (max x_min x_max - min x_min x_max + 1) * (max y_min y_max - min y_min y_max + 1)"
    by (simp add: nat_mult_distrib)
  finally show ?thesis
    by (simp add: plan_rect_def rect_area_def b c1 c2)
qed

lemma count_step_fst:
  "fst (count_step bbox (t, d) z) = t + rect_area (plan_rect bbox z)"
  by (simp add: count_step_def plan_rect_def rect_area_def Let_def split: prod.splits)

lemma foldl_count_step:
  "fst (foldl (count_step bbox) acc zs) = fst acc + (\<Sum>z\<leftarrow>zs. rect_area (plan_rect bbox z))"
proof (induction zs arbitrary: acc)
  case Nil
  then show ?case by simp
next
  case (Cons z zs)
  obtain t d where "acc = (t, d)" by (cases acc) auto
  then show ?case using Cons.IH [of "count_step bbox acc z"]
    by (simp add: count_step_fst)
qed

lemma length_submitted:
  "int (length (concat (map (submit_zoom bbox) zs))) = (\<Sum>z\<leftarrow>zs. rect_area (plan_rect bbox z))"
  by (induction zs) (simp_all add: length_submit_zoom)

text \<open>
  C4. For every bounding box and zoom range, the number of jobs the submission loop of
  \<^verbatim>\<open>main\<close> creates is the total \<^verbatim>\<open>calculate_tile_count\<close> returns, and that total is the sum
  over the zoom levels of \<open>(xEnd - xStart + 1) * (yEnd - yStart + 1)\<close> for the normalised
  corner rectangle of the level. (No order between the two zooms is needed: for an empty
  range both are 0.)
\<close>

theorem scheduler_count_agrees:
  "int (length (submitted_jobs min_zoom max_zoom bbox)) = fst (calculate_tile_count min_zoom max_zoom bbox)
   \<and> fst (calculate_tile_count min_zoom max_zoom bbox)
       = (\<Sum>z\<leftarrow>[min_zoom..max_zoom]. rect_area (plan_rect bbox z))"
  by (simp add: submitted_jobs_def calculate_tile_count_def foldl_count_step length_submitted)

section \<open>Tile addressing\<close>





lemma arsinh_le: "a \<le> b \<Longrightarrow> arsinh a \<le> arsinh (b::real)"
  using arsinh_less_iff_real [of b a] by (simp add: not_less [symmetric])






section \<open>The benchmark\<close>


text \<open>With \<^verbatim>\<open>num_samples = 10\<close> the three zoom levels give nine sample tiles.\<close>

lemma length_sample_tiles_10: "length (sample_tiles_of 10) = 9"
  by (simp add: sample_tiles_of_def py_prefix_def BOUNDING_BOX_def Let_def split: prod.splits)




text \<open>
  With the pattern unset, the first \<^verbatim>\<open>format\<close> call raises: \<^verbatim>\<open>benchmark_speed\<close> and
  \<^verbatim>\<open>main\<close> end with the exception, whatever the samples would have met.
\<close>

lemma benchmark_speed_unset_pattern:
  "benchmark_speed unset_pattern answers 10 = Inl AttributeError
   \<and> main_benchmark unset_pattern answers total_tiles workers = Inl AttributeError"
proof -
  obtain t ts where "sample_tiles_of 10 = t # ts"
    using length_sample_tiles_10 by (cases "sample_tiles_of 10") auto
  then have "benchmark_speed unset_pattern answers 10 = Inl AttributeError"
    by (cases t) (simp add: benchmark_speed_def unset_pattern_def Let_def upt_rec [of 0])
  then show ?thesis by (simp add: main_benchmark_def)
qed




section \<open>Numeric bounds\<close>

text \<open>
  Bounds on \<open>pi\<close>, \<open>exp\<close>, \<open>sinh\<close> and the tangent near a pole, for the range of the y tile.
\<close>

lemma arctan_ge_cubic:
  fixes x :: real
  assumes "0 \<le> x"
  shows "x - x ^ 3 / 3 \<le> arctan x"
proof -
  have "arctan 0 - (0 - 0 ^ 3 / 3) \<le> arctan x - (x - x ^ 3 / 3)"
  proof (rule DERIV_nonneg_imp_nondecreasing [OF assms])
    fix t :: real
    have "((\<lambda>t. arctan t - (t - t ^ 3 / 3)) has_real_derivative (1 / (1 + t\<^sup>2) - (1 - t\<^sup>2))) (at t)"
      by (auto intro!: derivative_eq_intros simp: field_simps)
    moreover have "0 \<le> 1 / (1 + t\<^sup>2) - (1 - t\<^sup>2)"
    proof -
      have "1 / (1 + t\<^sup>2) - (1 - t\<^sup>2) = t ^ 4 / (1 + t\<^sup>2)"
        by (simp add: field_simps power4_eq_xxxx power2_eq_square add_nonneg_eq_0_iff)
      then show ?thesis by simp
    qed
    ultimately show "\<exists>y. ((\<lambda>t. arctan t - (t - t ^ 3 / 3)) has_real_derivative y) (at t) \<and> 0 \<le> y"
      by blast
  qed
  then show ?thesis by simp
qed

lemma arctan_le_quintic:
  fixes x :: real
  assumes "0 \<le> x"
  shows "arctan x \<le> x - x ^ 3 / 3 + x ^ 5 / 5"
proof -
  have "(0 - 0 ^ 3 / 3 + 0 ^ 5 / 5) - arctan 0 \<le> (x - x ^ 3 / 3 + x ^ 5 / 5) - arctan x"
  proof (rule DERIV_nonneg_imp_nondecreasing [OF assms])
    fix t :: real
    have "((\<lambda>t. (t - t ^ 3 / 3 + t ^ 5 / 5) - arctan t) has_real_derivative
            ((1 - t\<^sup>2 + t ^ 4) - 1 / (1 + t\<^sup>2))) (at t)"
      by (auto intro!: derivative_eq_intros simp: field_simps)
    moreover have "0 \<le> (1 - t\<^sup>2 + t ^ 4) - 1 / (1 + t\<^sup>2)"
    proof -
      have "(1 - t\<^sup>2 + t ^ 4) - 1 / (1 + t\<^sup>2) = t ^ 6 / (1 + t\<^sup>2)"
        by (simp add: field_simps power2_eq_square add_nonneg_eq_0_iff) (simp add: power_numeral_reduce)
      then show ?thesis by simp
    qed
    ultimately show "\<exists>y. ((\<lambda>t. (t - t ^ 3 / 3 + t ^ 5 / 5) - arctan t) has_real_derivative y) (at t) \<and> 0 \<le> y"
      by blast
  qed
  then show ?thesis by simp
qed

lemma arctan_le_arg:
  fixes x :: real
  assumes "0 \<le> x"
  shows "arctan x \<le> x"
proof -
  have "0 - arctan 0 \<le> x - arctan x"
  proof (rule DERIV_nonneg_imp_nondecreasing [OF assms])
    fix t :: real
    have "((\<lambda>t. t - arctan t) has_real_derivative (1 - 1 / (1 + t\<^sup>2))) (at t)"
      by (auto intro!: derivative_eq_intros simp: field_simps)
    moreover have "0 \<le> 1 - 1 / (1 + t\<^sup>2)"
      by (simp add: field_simps add_nonneg_eq_0_iff)
    ultimately show "\<exists>y. ((\<lambda>t. t - arctan t) has_real_derivative y) (at t) \<and> 0 \<le> y"
      by blast
  qed
  then show ?thesis by simp
qed


lemma pi_upper: "pi < 3142 / 1000"
proof -
  have a: "arctan (1 / 5 :: real) \<le> 1 / 5 - (1 / 5) ^ 3 / 3 + (1 / 5) ^ 5 / 5"
    by (rule arctan_le_quintic) simp
  have b: "1 / 239 - (1 / 239) ^ 3 / 3 \<le> arctan (1 / 239 :: real)"
    by (rule arctan_ge_cubic) simp
  have "pi = 16 * arctan (1 / 5) - 4 * arctan (1 / 239)"
    using machin by simp
  with a b show ?thesis by (simp add: power3_eq_cube power_numeral_reduce)
qed

lemma exp_ge_partial_sum:
  fixes x :: real
  assumes "0 \<le> x"
  shows "(\<Sum>k<n. x ^ k / fact k) \<le> exp x"
proof -
  have s: "summable (\<lambda>k. x ^ k / fact k)"
    using summable_exp [of x] by (simp add: field_simps)
  have "(\<Sum>k<n. x ^ k / fact k) \<le> (\<Sum>k. x ^ k / fact k)"
    by (rule sum_le_suminf [OF s]) (use assms in simp_all)
  also have "\<dots> = exp x"
    by (simp add: exp_def field_simps)
  finally show ?thesis .
qed

lemma self_le_tan:
  fixes x :: real
  assumes "0 \<le> x" "x < pi / 2"
  shows "x \<le> tan x"
proof -
  have "0 \<le> tan x" using assms by (rule tan_pos_pi2_le)
  then have "arctan (tan x) \<le> tan x" by (rule arctan_le_arg)
  moreover have "arctan (tan x) = x" using assms by (simp add: arctan_tan)
  ultimately show ?thesis by simp
qed

lemma sinh_ge:
  fixes x L :: real
  assumes "0 < L" "L \<le> exp x"
  shows "(L - 1 / L) / 2 \<le> sinh x"
proof -
  have "1 / exp x \<le> 1 / L"
    using assms by (simp add: frac_le)
  then have "L - 1 / L \<le> exp x - 1 / exp x"
    using assms by linarith
  then show ?thesis
    by (simp add: sinh_field_def exp_minus')
qed

lemma sinh_le:
  fixes x U :: real
  assumes "exp x \<le> U"
  shows "sinh x \<le> U / 2"
proof -
  have g: "0 < b \<Longrightarrow> a \<le> U \<Longrightarrow> (a - b) / 2 \<le> U / 2" for a b :: real
    by simp
  have "(exp x - exp (- x)) / 2 \<le> U / 2"
    by (rule g [OF _ assms]) simp
  then show ?thesis
    by (simp only: sinh_field_def)
qed

lemma exp_157: "(48 / 10 :: real) \<le> exp (157 / 100)"
proof -
  have "(\<Sum>k<7. (157 / 100 :: real) ^ k / fact k) \<le> exp (157 / 100)"
    by (rule exp_ge_partial_sum) simp
  moreover have "(48 / 10 :: real) \<le> (\<Sum>k<7. (157 / 100) ^ k / fact k)"
    by (simp add: lessThan_nat_numeral lessThan_Suc fact_numeral power_numeral_reduce)
  ultimately show ?thesis by linarith
qed



lemma tan_near_pole:
  fixes x :: real
  assumes "0 < x" "x < pi / 2"
  shows "tan (pi / 2 - x) \<le> 1 / x"
proof -
  have "x \<le> tan x" using assms by (intro self_le_tan) simp_all
  then have "inverse (tan x) \<le> inverse x"
    using assms by (simp add: le_imp_inverse_le)
  then show ?thesis by (simp add: tan_cot inverse_eq_divide)
qed



lemma tan_le_of_le_arctan:
  fixes x c :: real
  assumes "0 \<le> x" "x \<le> arctan c"
  shows "tan x \<le> c"
proof -
  have "tan x \<le> tan (arctan c)"
    using assms arctan_bounded [of c] pi_gt_zero by (intro tan_mono_le) linarith+
  then show ?thesis by (simp add: tan_arctan)
qed








lemma arsinh_ge: "sinh a \<le> t \<Longrightarrow> a \<le> arsinh (t :: real)"
  using arsinh_less_iff_real [of t "sinh a"] by (simp add: not_less [symmetric] arsinh_sinh_real)




section \<open>The formula and the floor\<close>







section \<open>Rounding to double precision\<close>

lemma round_even_of_int [simp]: "round_even (of_int k) = k"
  by (simp add: round_even_def)

lemma round_even_between: "\<lfloor>t\<rfloor> \<le> round_even t \<and> round_even t \<le> \<lfloor>t\<rfloor> + 1"
  by (simp add: round_even_def)

lemma round_even_mono:
  assumes "a \<le> b"
  shows "round_even a \<le> round_even b"
proof (cases "\<lfloor>a\<rfloor> = \<lfloor>b\<rfloor>")
  case True
  with assms show ?thesis by (auto simp: round_even_def)
next
  case False
  then have "\<lfloor>a\<rfloor> < \<lfloor>b\<rfloor>" using floor_mono [OF assms] by simp
  then have "round_even a \<le> \<lfloor>b\<rfloor>" using round_even_between [of a] by linarith
  then show ?thesis using round_even_between [of b] by linarith
qed

lemma round_even_minus: "round_even (- t) = - round_even t"
proof (cases "t = of_int \<lfloor>t\<rfloor>")
  case True
  then have "round_even (- t) = round_even (of_int (- \<lfloor>t\<rfloor>))" by simp
  also have "\<dots> = - \<lfloor>t\<rfloor>" by (rule round_even_of_int)
  also have "\<dots> = - round_even (of_int \<lfloor>t\<rfloor>)" by simp
  finally show ?thesis using True by simp
next
  case False
  have lt: "of_int \<lfloor>t\<rfloor> < t" using False of_int_floor_le [of t] by linarith
  have f: "\<lfloor>- t\<rfloor> = - \<lfloor>t\<rfloor> - 1"
    using lt by (simp add: floor_eq_iff) linarith
  show ?thesis
    unfolding round_even_def f using lt by (auto simp: algebra_simps)
qed

lemma binade:
  assumes "0 < a"
  shows "2 powi \<lfloor>log 2 a\<rfloor> \<le> a" and "a < 2 powi (\<lfloor>log 2 a\<rfloor> + 1)"
proof -
  have "\<lfloor>log 2 a\<rfloor> = \<lfloor>log 2 a\<rfloor>" by simp
  then have "2 powr (of_int \<lfloor>log 2 a\<rfloor>) \<le> a \<and> a < 2 powr (of_int (\<lfloor>log 2 a\<rfloor> + 1))"
    using floor_log_eq_powr_iff [of a 2 "\<lfloor>log 2 a\<rfloor>"] assms by simp
  then show "2 powi \<lfloor>log 2 a\<rfloor> \<le> a" and "a < 2 powi (\<lfloor>log 2 a\<rfloor> + 1)"
    by (simp_all only: powr_real_of_int' [of 2, simplified])
qed

lemma binade_unique:
  assumes "2 powi k \<le> a" "a < 2 powi (k + 1)"
  shows "\<lfloor>log 2 a\<rfloor> = k"
proof -
  have pos: "0 < a" using assms(1) zero_less_power_int [of "2::real" k] by linarith
  have "2 powr (of_int k) \<le> a \<and> a < 2 powr (of_int (k + 1))"
    using assms by (simp only: powr_real_of_int' [of 2, simplified])
  then show ?thesis
    using floor_log_eq_powr_iff [of a 2 k] pos by simp
qed

lemma floor_log_mono:
  assumes "0 < a" "a \<le> b"
  shows "\<lfloor>log 2 a\<rfloor> \<le> \<lfloor>log 2 b\<rfloor>"
  using assms by (intro floor_mono log_mono) simp_all

lemma ulp_exponent_mono:
  assumes "0 < a" "a \<le> b"
  shows "ulp_exponent a \<le> ulp_exponent b"
  using floor_log_mono [of "\<bar>a\<bar>" "\<bar>b\<bar>"] assms by (simp add: ulp_exponent_def)

lemma ulp_exponent_minus [simp]: "ulp_exponent (- v) = ulp_exponent v"
  by (simp add: ulp_exponent_def)

lemma round_even_0 [simp]: "round_even 0 = 0"
  by (simp add: round_even_def)

lemma rnd_0 [simp]: "rnd 0 = 0"
  by (simp add: rnd_def)

lemma rnd_minus: "rnd (- v) = - rnd v"
  by (simp add: rnd_def round_even_minus)

lemma rnd_nonneg:
  assumes "0 \<le> v"
  shows "0 \<le> rnd v"
proof -
  have "0 \<le> v / 2 powi ulp_exponent v" using assms by simp
  then have "round_even 0 \<le> round_even (v / 2 powi ulp_exponent v)"
    by (rule round_even_mono)
  then have "0 \<le> round_even (v / 2 powi ulp_exponent v)"
    using round_even_of_int [of 0] by simp
  then show ?thesis by (simp add: rnd_def)
qed

lemma rnd_mono_pos:
  assumes "0 < a" "a \<le> b"
  shows "rnd a \<le> rnd b"
proof (cases "ulp_exponent a = ulp_exponent b")
  case True
  have "a / 2 powi ulp_exponent b \<le> b / 2 powi ulp_exponent b"
    using assms by (simp add: divide_right_mono)
  then have "round_even (a / 2 powi ulp_exponent b) \<le> round_even (b / 2 powi ulp_exponent b)"
    by (rule round_even_mono)
  then have "real_of_int (round_even (a / 2 powi ulp_exponent b)) * 2 powi ulp_exponent b
      \<le> real_of_int (round_even (b / 2 powi ulp_exponent b)) * 2 powi ulp_exponent b"
    by (intro mult_right_mono) simp_all
  then show ?thesis by (simp add: rnd_def True)
next
  case False
  define ea where "ea = ulp_exponent a"
  define eb where "eb = ulp_exponent b"
  have lt: "ea < eb"
    using False ulp_exponent_mono [OF assms] by (simp add: ea_def eb_def)
  have bpos: "0 < b" using assms by linarith
  have eb: "eb = \<lfloor>log 2 b\<rfloor> - 52"
    using lt bpos assms by (simp add: ea_def eb_def ulp_exponent_def max_def split: if_splits)
  have "\<lfloor>log 2 a\<rfloor> \<le> ea + 52"
    using assms by (simp add: ea_def ulp_exponent_def)
  then have "(2::real) powi (\<lfloor>log 2 a\<rfloor> + 1) \<le> 2 powi (ea + 53)"
    by (intro power_int_increasing) simp_all
  then have a_less: "a < 2 powi (ea + 53)"
    using binade(2) [OF assms(1)] by linarith
  have "a / 2 powi ea < 2 powi (ea + 53) / 2 powi ea"
    using a_less by (simp add: divide_strict_right_mono)
  also have "(2::real) powi (ea + 53) / 2 powi ea = 2 ^ 53"
    by (simp add: power_int_add)
  finally have "a / 2 powi ea \<le> of_int (2 ^ 53)" by simp
  then have "round_even (a / 2 powi ea) \<le> round_even (of_int (2 ^ 53))"
    by (rule round_even_mono)
  then have "real_of_int (round_even (a / 2 powi ea)) \<le> 2 ^ 53"
    by (simp only: round_even_of_int) (simp add: of_int_le_iff [symmetric] del: of_int_le_iff)
  then have "real_of_int (round_even (a / 2 powi ea)) * 2 powi ea \<le> 2 ^ 53 * 2 powi ea"
    by (intro mult_right_mono) simp_all
  also have "\<dots> = 2 powi (ea + 53)"
    by (simp add: power_int_add)
  also have "\<dots> \<le> 2 powi (eb + 52)"
    using lt by (intro power_int_increasing) simp_all
  finally have ra: "rnd a \<le> 2 powi (eb + 52)"
    by (simp add: rnd_def ea_def)
  have "2 powi (eb + 52) \<le> b"
    using binade(1) [OF bpos] by (simp add: eb)
  then have "2 powi (eb + 52) / 2 powi eb \<le> b / 2 powi eb"
    by (simp add: divide_right_mono)
  moreover have "(2::real) powi (eb + 52) / 2 powi eb = 2 ^ 52"
    by (simp add: power_int_add)
  ultimately have "of_int (2 ^ 52) \<le> b / 2 powi eb" by simp
  then have "round_even (of_int (2 ^ 52)) \<le> round_even (b / 2 powi eb)"
    by (rule round_even_mono)
  then have big: "2 ^ 52 \<le> real_of_int (round_even (b / 2 powi eb))"
    by (simp only: round_even_of_int) (simp add: of_int_le_iff [symmetric] del: of_int_le_iff)
  have "(2::real) powi (eb + 52) = 2 ^ 52 * 2 powi eb"
    by (simp add: power_int_add)
  also have "\<dots> \<le> real_of_int (round_even (b / 2 powi eb)) * 2 powi eb"
    using big by (intro mult_right_mono) simp_all
  finally have "2 powi (eb + 52) \<le> rnd b"
    unfolding rnd_def eb_def .
  with ra show ?thesis by linarith
qed

lemma rnd_mono:
  assumes "a \<le> b"
  shows "rnd a \<le> rnd b"
proof -
  consider "0 < a" | "a \<le> 0" "0 \<le> b" | "b < 0" by linarith
  then show ?thesis
  proof cases
    case 1
    then show ?thesis using assms by (rule rnd_mono_pos)
  next
    case 2
    have "rnd a \<le> 0" using rnd_nonneg [of "- a"] 2 by (simp add: rnd_minus)
    moreover have "0 \<le> rnd b" using 2 by (intro rnd_nonneg)
    ultimately show ?thesis by linarith
  next
    case 3
    have "rnd (- b) \<le> rnd (- a)"
      using 3 assms by (intro rnd_mono_pos) simp_all
    then show ?thesis by (simp add: rnd_minus)
  qed
qed

lemma rnd_exact:
  assumes v: "v = of_int m * 2 powi k" and m: "\<bar>m\<bar> < 2 ^ 53" and k: "- 1074 \<le> k"
  shows "rnd v = v"
proof (cases "m = 0")
  case True
  then show ?thesis using v by simp
next
  case False
  define e where "e = ulp_exponent v"
  have vabs: "\<bar>v\<bar> = of_int \<bar>m\<bar> * 2 powi k"
    by (simp add: v abs_mult)
  have vpos: "0 < \<bar>v\<bar>" using False by (simp add: v)
  have "real_of_int \<bar>m\<bar> < 2 ^ 53"
    using m by (simp add: of_int_less_iff [symmetric] del: of_int_less_iff)
  then have "\<bar>v\<bar> < 2 ^ 53 * 2 powi k"
    unfolding vabs by (intro mult_strict_right_mono) simp_all
  also have "\<dots> = 2 powi (k + 53)"
    by (simp add: power_int_add)
  finally have "2 powi \<lfloor>log 2 \<bar>v\<bar>\<rfloor> < (2::real) powi (k + 53)"
    using binade(1) [OF vpos] by linarith
  then have "\<lfloor>log 2 \<bar>v\<bar>\<rfloor> < k + 53"
    using power_int_increasing [of "k + 53" "\<lfloor>log 2 \<bar>v\<bar>\<rfloor>" "2::real"] by (cases "k + 53 \<le> \<lfloor>log 2 \<bar>v\<bar>\<rfloor>") auto
  then have ek: "e \<le> k"
    using k by (simp add: e_def ulp_exponent_def)
  define d where "d = nat (k - e)"
  have kd: "k = e + int d" using ek by (simp add: d_def)
  have p: "(2::real) powi k = 2 ^ d * 2 powi e"
    by (simp add: kd power_int_add)
  have "v / 2 powi e = of_int (m * 2 ^ d)"
    by (simp add: v p)
  then have "round_even (v / 2 powi e) = m * 2 ^ d"
    by (simp only: round_even_of_int)
  then have "rnd v = of_int (m * 2 ^ d) * 2 powi e"
    by (simp add: rnd_def e_def)
  also have "\<dots> = v"
    by (simp add: v p)
  finally show ?thesis .
qed

lemma rnd_of_int:
  assumes "\<bar>m\<bar> < 2 ^ 53"
  shows "rnd (of_int m) = of_int m"
  using rnd_exact [of "of_int m" m 0] assms by simp

lemma rnd_power_of_two:
  assumes "- 1074 \<le> k"
  shows "rnd (2 powi k) = 2 powi k"
  using rnd_exact [of "2 powi k" 1 k] assms by simp

lemma rnd_360: "rnd 360 = 360" and rnd_1: "rnd 1 = 1" and rnd_2: "rnd 2 = 2"
  using rnd_of_int [of 360] rnd_of_int [of 1] rnd_of_int [of 2] by simp_all

text \<open>A tie: \<open>360 - 2^-45\<close> lies half way between two doubles and rounds to the even one, 360.\<close>

lemma rnd_tie_below_360: "rnd (360 - 1 / 2 ^ 45) = 360"
proof -
  have b: "\<lfloor>log 2 \<bar>360 - 1 / 2 ^ 45 :: real\<bar>\<rfloor> = 8"
    by (rule binade_unique) simp_all
  have e: "ulp_exponent (360 - 1 / 2 ^ 45) = - 44"
    unfolding ulp_exponent_def b by simp
  have q: "(360 - 1 / 2 ^ 45) / 2 powi (- 44) = (of_int (360 * 2 ^ 44 - 1) + 1 / 2 :: real)"
    by (simp add: power_int_minus field_simps)
  have f: "\<lfloor>of_int (360 * 2 ^ 44 - 1) + 1 / 2 :: real\<rfloor> = 360 * 2 ^ 44 - 1"
    by (simp add: floor_eq_iff)
  have "round_even (of_int (360 * 2 ^ 44 - 1) + 1 / 2) = 360 * 2 ^ 44"
    unfolding round_even_def f by simp
  then show ?thesis
    unfolding rnd_def e q by (simp add: power_int_minus)
qed

section \<open>The range of deg2num in double precision\<close>

lemma arctan_ge_septic:
  fixes x :: real
  assumes "0 \<le> x"
  shows "x - x ^ 3 / 3 + x ^ 5 / 5 - x ^ 7 / 7 \<le> arctan x"
proof -
  have "arctan 0 - (0 - 0 ^ 3 / 3 + 0 ^ 5 / 5 - 0 ^ 7 / 7)
      \<le> arctan x - (x - x ^ 3 / 3 + x ^ 5 / 5 - x ^ 7 / 7)"
  proof (rule DERIV_nonneg_imp_nondecreasing [OF assms])
    fix t :: real
    have "((\<lambda>t. arctan t - (t - t ^ 3 / 3 + t ^ 5 / 5 - t ^ 7 / 7)) has_real_derivative
            (1 / (1 + t\<^sup>2) - (1 - t\<^sup>2 + t ^ 4 - t ^ 6))) (at t)"
      by (auto intro!: derivative_eq_intros simp: field_simps)
    moreover have "0 \<le> 1 / (1 + t\<^sup>2) - (1 - t\<^sup>2 + t ^ 4 - t ^ 6)"
    proof -
      have "1 / (1 + t\<^sup>2) - (1 - t\<^sup>2 + t ^ 4 - t ^ 6) = t ^ 8 / (1 + t\<^sup>2)"
        by (simp add: field_simps power2_eq_square add_nonneg_eq_0_iff) (simp add: power_numeral_reduce)
      then show ?thesis by simp
    qed
    ultimately show "\<exists>y. ((\<lambda>t. arctan t - (t - t ^ 3 / 3 + t ^ 5 / 5 - t ^ 7 / 7)) has_real_derivative y) (at t)
        \<and> 0 \<le> y"
      by blast
  qed
  then show ?thesis by simp
qed

lemma pi_lower_4: "31415 / 10000 < pi"
proof -
  have a: "1 / 5 - (1 / 5) ^ 3 / 3 + (1 / 5) ^ 5 / 5 - (1 / 5) ^ 7 / 7 \<le> arctan (1 / 5 :: real)"
    by (rule arctan_ge_septic) simp
  have b: "arctan (1 / 239 :: real) \<le> 1 / 239"
    by (rule arctan_le_arg) simp
  have "pi = 16 * arctan (1 / 5) - 4 * arctan (1 / 239)"
    using machin by simp
  with a b show ?thesis by (simp add: power_numeral_reduce)
qed

lemma rnd_between:
  assumes "lo \<le> v" "v \<le> hi" "rnd lo = lo" "rnd hi = hi"
  shows "lo \<le> rnd v \<and> rnd v \<le> hi"
  using rnd_mono [OF assms(1)] rnd_mono [OF assms(2)] assms(3,4) by simp

lemma rnd_ratio:
  assumes "\<bar>m\<bar> < 2 ^ 53" "k \<le> 1074"
  shows "rnd (of_int m / 2 ^ nat k) = of_int m / 2 ^ nat k"
proof (cases "0 \<le> k")
  case True
  have "(of_int m / 2 ^ nat k :: real) = of_int m * 2 powi (- k)"
    using True by (simp add: power_int_minus power_int_nonneg_exp field_simps)
  then show ?thesis
    using rnd_exact [of "of_int m / 2 ^ nat k" m "- k"] assms by simp
next
  case False
  then show ?thesis using rnd_of_int [OF assms(1)] by simp
qed

lemma fl_int_finite:
  assumes "\<bar>v\<bar> < 2 ^ 1024"
  shows "fl_int v = Inr (py_int v)"
  using assms by (simp add: fl_int_def)

lemma zoom_power:
  assumes "0 \<le> zoom"
  shows "rnd (2 powi zoom) = 2 ^ nat zoom"
  using rnd_power_of_two [of zoom] assms by (simp add: power_int_nonneg_exp)

lemma power_le_1023:
  assumes "0 \<le> zoom" "zoom \<le> 1023"
  shows "(2::real) ^ nat zoom \<le> 2 ^ 1023"
  using assms by (intro power_increasing) simp_all

text \<open>The x tile.\<close>

lemma x_chain:
  assumes "- 180 \<le> lon" "lon \<le> 180"
  shows "0 \<le> rnd (rnd (rnd (lon + 180) / 360) * 2 ^ k)
       \<and> rnd (rnd (rnd (lon + 180) / 360) * 2 ^ k) \<le> 2 ^ k"
proof -
  have s: "0 \<le> rnd (lon + 180) \<and> rnd (lon + 180) \<le> 360"
    using assms by (intro rnd_between) (simp_all add: rnd_360)
  then have q: "0 \<le> rnd (rnd (lon + 180) / 360) \<and> rnd (rnd (lon + 180) / 360) \<le> 1"
    by (intro rnd_between) (simp_all add: rnd_1)
  have p: "rnd (2 ^ k :: real) = 2 ^ k"
    using rnd_power_of_two [of "int k"] by simp
  have "rnd (rnd (lon + 180) / 360) * 2 ^ k \<le> 1 * 2 ^ k"
    using q by (intro mult_right_mono) simp_all
  then show ?thesis
    using q by (intro rnd_between) (simp_all add: p)
qed

lemma x_chain_strict:
  assumes "- 180 \<le> lon" "lon \<le> 180 - 1 / 2 ^ 44"
  shows "rnd (rnd (rnd (lon + 180) / 360) * 2 ^ k) < 2 ^ k"
proof -
  have e1: "rnd (360 - 1 / 2 ^ 44) = 360 - 1 / 2 ^ 44"
    using rnd_ratio [of 6333186975989759 44] by simp
  have e2: "rnd (1 - 1 / 2 ^ 53) = 1 - 1 / 2 ^ 53"
    using rnd_ratio [of 9007199254740991 53] by simp
  have "lon + 180 \<le> 360 - 1 / 2 ^ 44" using assms(2) by simp
  then have "rnd (lon + 180) \<le> rnd (360 - 1 / 2 ^ 44)" by (rule rnd_mono)
  then have s: "rnd (lon + 180) \<le> 360 - 1 / 2 ^ 44" unfolding e1 .
  have "rnd (lon + 180) / 360 \<le> 1 - 1 / 2 ^ 53" using s by simp
  then have "rnd (rnd (lon + 180) / 360) \<le> rnd (1 - 1 / 2 ^ 53)" by (rule rnd_mono)
  then have q: "rnd (rnd (lon + 180) / 360) \<le> 1 - 1 / 2 ^ 53" unfolding e2 .
  define t :: real where "t = (1 - 1 / 2 ^ 53) * 2 ^ k"
  have "(2::real) powi (int k - 53) = 2 ^ k / 2 ^ 53"
    by (simp add: power_int_diff)
  then have "t = of_int 9007199254740991 * 2 powi (int k - 53)"
    by (simp add: t_def field_simps)
  then have e3: "rnd t = t"
    by (rule rnd_exact) simp_all
  have "rnd (rnd (lon + 180) / 360) * 2 ^ k \<le> t"
    unfolding t_def using q by (intro mult_right_mono) simp_all
  then have "rnd (rnd (rnd (lon + 180) / 360) * 2 ^ k) \<le> rnd t" by (rule rnd_mono)
  then have "rnd (rnd (rnd (lon + 180) / 360) * 2 ^ k) \<le> t" unfolding e3 .
  moreover have "t < 2 ^ k"
    by (simp add: t_def)
  ultimately show ?thesis by linarith
qed

lemma py_int_floor_range:
  assumes "0 \<le> v" "v \<le> 2 ^ k"
  shows "0 \<le> py_int v \<and> py_int v \<le> 2 ^ k"
proof -
  have "\<lfloor>v\<rfloor> \<le> \<lfloor>2 ^ k :: real\<rfloor>" using assms(2) by (rule floor_mono)
  then show ?thesis using assms(1) by (simp add: py_int_def)
qed

lemma py_int_floor_strict:
  assumes "0 \<le> v" "v < 2 ^ k"
  shows "0 \<le> py_int v \<and> py_int v < 2 ^ k"
proof -
  have "\<lfloor>v\<rfloor> < 2 ^ k" using assms(2) by (simp add: floor_less_iff)
  then show ?thesis using assms(1) by (simp add: py_int_def)
qed

text \<open>The latitude in radians, and the y tile.\<close>

lemma fl_radians_85:
  assumes "\<bar>lat\<bar> < 85"
  shows "\<bar>fl_radians lat\<bar> \<le> 6077 / 4096"
proof -
  have e: "rnd (6077 / 4096) = 6077 / 4096" "rnd (- (6077 / 4096)) = - (6077 / 4096)"
    using rnd_ratio [of 6077 12] rnd_ratio [of "- 6077" 12] by simp_all
  have c: "0 \<le> degToRad" "85 * degToRad \<le> 6077 / 4096"
    by (simp_all add: degToRad_def)
  have "\<bar>lat * degToRad\<bar> \<le> 85 * degToRad"
    using assms c(1) by (simp add: abs_mult mult_right_mono)
  then have "- (6077 / 4096) \<le> lat * degToRad" "lat * degToRad \<le> 6077 / 4096"
    using c(2) by linarith+
  then have "- (6077 / 4096) \<le> rnd (lat * degToRad) \<and> rnd (lat * degToRad) \<le> 6077 / 4096"
    by (intro rnd_between e)
  then show ?thesis unfolding fl_radians_def by linarith
qed

lemma tan_6077: "tan (6077 / 4096 :: real) \<le> 11481 / 1000"
proof -
  define x where "x = pi / 2 - 6077 / 4096"
  have x: "1 / (11481 / 1000) \<le> x" "x < pi / 2"
    using pi_lower_4 by (simp_all add: x_def)
  have xpos: "0 < x" using x(1) by simp
  have "tan (pi / 2 - x) \<le> 1 / x"
    using xpos x(2) by (rule tan_near_pole)
  also have "\<dots> \<le> 11481 / 1000"
    using x(1) xpos by (simp add: field_simps)
  finally show ?thesis by (simp add: x_def)
qed

lemma tan_bounded:
  fixes v :: real
  assumes "\<bar>v\<bar> \<le> 6077 / 4096"
  shows "\<bar>tan v\<bar> \<le> 11481 / 1000" and "cos v \<noteq> 0"
proof -
  have b: "6077 / 4096 < pi / 2" using pi_lower_4 by simp
  have v: "- (pi / 2) < v" "v < pi / 2" "- (pi / 2) < - v" "- v < pi / 2"
    using assms b by (simp_all add: abs_le_iff)
  have "tan v \<le> tan (6077 / 4096)"
    using v(1) b assms by (intro tan_mono_le) (simp_all add: abs_le_iff)
  moreover have "tan (- v) \<le> tan (6077 / 4096)"
    using v(3) b assms by (intro tan_mono_le) (simp_all add: abs_le_iff)
  ultimately show "\<bar>tan v\<bar> \<le> 11481 / 1000"
    using tan_6077 by (simp add: abs_le_iff)
  show "cos v \<noteq> 0"
    using cos_gt_zero_pi [OF v(1,2)] by simp
qed

lemma exp_314_sharp: "(2304 / 100 :: real) \<le> exp (314 / 100)"
proof -
  have "exp (314 / 100 :: real) = exp (2 * (157 / 100))" by simp
  also have "\<dots> = exp (157 / 100) ^ 2" by (rule exp_double)
  finally have e: "exp (314 / 100 :: real) = exp (157 / 100) ^ 2" .
  have "(48 / 10 :: real) ^ 2 \<le> exp (157 / 100) ^ 2"
    by (rule power_mono [OF exp_157]) simp
  with e show ?thesis by (simp add: power2_eq_square)
qed

lemma arsinh_bounded:
  fixes t :: real
  assumes "\<bar>t\<bar> \<le> 11482 / 1000"
  shows "\<bar>arsinh t\<bar> \<le> 314 / 100"
proof -
  have s: "(11482 / 1000 :: real) \<le> sinh (314 / 100)"
  proof -
    have "(11482 / 1000 :: real) \<le> (2304 / 100 - 1 / (2304 / 100)) / 2" by simp
    also have "\<dots> \<le> sinh (314 / 100)"
      by (rule sinh_ge [OF _ exp_314_sharp]) simp
    finally show ?thesis .
  qed
  have up: "arsinh u \<le> 314 / 100" if "u \<le> 11482 / 1000" for u :: real
  proof -
    have "arsinh u \<le> arsinh (sinh (314 / 100))"
      using that s by (intro arsinh_le) linarith
    then show ?thesis by (simp add: arsinh_sinh_real)
  qed
  have "arsinh t \<le> 314 / 100" "arsinh (- t) \<le> 314 / 100"
    using assms by (intro up; simp add: abs_le_iff)+
  then show ?thesis by (simp add: abs_le_iff)
qed

lemma accurate_tan:
  assumes "accurate L" "cos v \<noteq> 0" "\<bar>tan v\<bar> \<le> b"
  shows "\<bar>m_tan L v\<bar> \<le> b * (1 + 1 / 2 ^ 20)"
proof -
  have "\<bar>m_tan L v - tan v\<bar> \<le> \<bar>tan v\<bar> / 2 ^ 20"
    using assms(1,2) by (simp add: accurate_def)
  then have "\<bar>m_tan L v\<bar> \<le> \<bar>tan v\<bar> / 2 ^ 20 + \<bar>tan v\<bar>"
    by linarith
  also have "\<dots> = \<bar>tan v\<bar> * (1 + 1 / 2 ^ 20)"
    by (simp add: algebra_simps)
  also have "\<dots> \<le> b * (1 + 1 / 2 ^ 20)"
    using assms(3) by (intro mult_right_mono) simp_all
  finally show ?thesis .
qed

lemma accurate_asinh:
  assumes "accurate L" "\<bar>arsinh v\<bar> \<le> b"
  shows "\<bar>m_asinh L v\<bar> \<le> b * (1 + 1 / 2 ^ 20)"
proof -
  have "\<bar>m_asinh L v - arsinh v\<bar> \<le> \<bar>arsinh v\<bar> / 2 ^ 20"
    using assms(1) by (simp add: accurate_def)
  then have "\<bar>m_asinh L v\<bar> \<le> \<bar>arsinh v\<bar> / 2 ^ 20 + \<bar>arsinh v\<bar>"
    by linarith
  also have "\<dots> = \<bar>arsinh v\<bar> * (1 + 1 / 2 ^ 20)"
    by (simp add: algebra_simps)
  also have "\<dots> \<le> b * (1 + 1 / 2 ^ 20)"
    using assms(2) by (intro mult_right_mono) simp_all
  finally show ?thesis .
qed

lemma y_chain:
  assumes acc: "accurate L" and lat: "\<bar>lr\<bar> \<le> 6077 / 4096"
  shows "0 \<le> rnd (rnd (rnd (1 - rnd (m_asinh L (m_tan L lr) / M_PI)) / 2) * 2 ^ k)
       \<and> rnd (rnd (rnd (1 - rnd (m_asinh L (m_tan L lr) / M_PI)) / 2) * 2 ^ k) < 2 ^ k"
proof -
  define w where "w = m_asinh L (m_tan L lr)"
  have "\<bar>m_tan L lr\<bar> \<le> 11481 / 1000 * (1 + 1 / 2 ^ 20)"
    using acc tan_bounded [OF lat] by (intro accurate_tan) simp_all
  then have "\<bar>m_tan L lr\<bar> \<le> 11482 / 1000" by simp
  then have "\<bar>arsinh (m_tan L lr)\<bar> \<le> 314 / 100" by (rule arsinh_bounded)
  then have "\<bar>w\<bar> \<le> 314 / 100 * (1 + 1 / 2 ^ 20)"
    unfolding w_def using acc by (intro accurate_asinh)
  then have wq: "\<bar>w / M_PI\<bar> \<le> 4095 / 4096"
    by (simp add: M_PI_def abs_le_iff field_simps)
  have e1: "rnd (4095 / 4096) = 4095 / 4096" "rnd (- (4095 / 4096)) = - (4095 / 4096)"
    using rnd_ratio [of 4095 12] rnd_ratio [of "- 4095" 12] by simp_all
  have wq2: "- (4095 / 4096) \<le> w / M_PI" "w / M_PI \<le> 4095 / 4096"
    using wq by linarith+
  have r: "- (4095 / 4096) \<le> rnd (w / M_PI) \<and> rnd (w / M_PI) \<le> 4095 / 4096"
    by (intro rnd_between e1 wq2)
  have e2: "rnd (1 / 4096) = 1 / 4096" "rnd (8191 / 4096) = 8191 / 4096"
    using rnd_ratio [of 1 12] rnd_ratio [of 8191 12] by simp_all
  have d: "1 / 4096 \<le> rnd (1 - rnd (w / M_PI)) \<and> rnd (1 - rnd (w / M_PI)) \<le> 8191 / 4096"
    using r by (intro rnd_between e2) simp_all
  have e3: "rnd (1 / 8192) = 1 / 8192" "rnd (8191 / 8192) = 8191 / 8192"
    using rnd_ratio [of 1 13] rnd_ratio [of 8191 13] by simp_all
  have h: "1 / 8192 \<le> rnd (rnd (1 - rnd (w / M_PI)) / 2)
         \<and> rnd (rnd (1 - rnd (w / M_PI)) / 2) \<le> 8191 / 8192"
    using d by (intro rnd_between e3) simp_all
  define hh where "hh = rnd (rnd (1 - rnd (w / M_PI)) / 2)"
  have hb: "0 \<le> hh" "hh \<le> 8191 / 8192"
    using h by (simp_all add: hh_def)
  have e4: "rnd (8191 / 8192 * 2 ^ k) = 8191 / 8192 * 2 ^ k"
  proof -
    have "(8191 / 8192 * 2 ^ k :: real) = of_int 8191 * 2 powi (int k - 13)"
      by (simp add: power_int_diff)
    then show ?thesis
      using rnd_exact [of "8191 / 8192 * 2 ^ k" 8191 "int k - 13"] by simp
  qed
  have "hh * 2 ^ k \<le> 8191 / 8192 * 2 ^ k"
    using hb(2) by (intro mult_right_mono) simp_all
  then have "rnd (hh * 2 ^ k) \<le> rnd (8191 / 8192 * 2 ^ k)"
    by (rule rnd_mono)
  then have "rnd (hh * 2 ^ k) \<le> 8191 / 8192 * 2 ^ k"
    unfolding e4 .
  moreover have "(8191 / 8192 * 2 ^ k :: real) < 2 ^ k"
    by simp
  moreover have "0 \<le> rnd (hh * 2 ^ k)"
    using hb(1) by (intro rnd_nonneg) simp
  ultimately show ?thesis
    unfolding hh_def w_def by linarith
qed

text \<open>
  C1. For \<open>|lat| < 85\<close>, \<open>-180 \<le> lon \<le> 180\<close> and \<open>0 \<le> zoom \<le> 1023\<close>, with an
  accurate library, \<^verbatim>\<open>deg2num\<close> returns a pair \<open>(x, y)\<close> (it is a function of its
  arguments and of the library) with \<open>0 \<le> x \<le> 2^zoom\<close> and \<open>0 \<le> y < 2^zoom\<close>; and
  \<open>x < 2^zoom\<close> for every longitude up to \<open>180 - 2^-44\<close>, which leaves out two doubles
  only: 180 itself and its predecessor \<open>180 - 2^-45\<close>. Nothing clamps the last column.
\<close>

theorem deg2num_fl_in_grid:
  assumes "accurate L" and "\<bar>lat\<bar> < 85" and "- 180 \<le> lon" and "lon \<le> 180"
    and "0 \<le> zoom" and "zoom \<le> 1023"
  shows "\<exists>x y. deg2num_fl L lat lon zoom = Inr (x, y)
           \<and> 0 \<le> x \<and> x \<le> 2 ^ nat zoom \<and> (lon \<le> 180 - 1 / 2 ^ 44 \<longrightarrow> x < 2 ^ nat zoom)
           \<and> 0 \<le> y \<and> y < 2 ^ nat zoom"
proof -
  define vx where "vx = rnd (rnd (rnd (lon + 180) / 360) * 2 ^ nat zoom)"
  define vy where
    "vy = rnd (rnd (rnd (1 - rnd (m_asinh L (m_tan L (fl_radians lat)) / M_PI)) / 2) * 2 ^ nat zoom)"
  have n: "rnd (2 powi zoom) = 2 ^ nat zoom"
    using assms(5) by (rule zoom_power)
  have big: "(2::real) ^ nat zoom < 2 ^ 1024"
    using power_le_1023 [OF assms(5,6)] by simp
  have x: "0 \<le> vx" "vx \<le> 2 ^ nat zoom"
    using x_chain [OF assms(3,4), of "nat zoom"] by (simp_all add: vx_def)
  have xs: "vx < 2 ^ nat zoom" if "lon \<le> 180 - 1 / 2 ^ 44"
    using x_chain_strict [OF assms(3) that, of "nat zoom"] by (simp add: vx_def)
  have y: "0 \<le> vy" "vy < 2 ^ nat zoom"
    using y_chain [OF assms(1) fl_radians_85 [OF assms(2)], of "nat zoom"] by (simp_all add: vy_def)
  have fx: "fl_int vx = Inr (py_int vx)"
    using x big by (intro fl_int_finite) simp
  have fy: "fl_int vy = Inr (py_int vy)"
    using y big by (intro fl_int_finite) simp
  have "deg2num_fl L lat lon zoom = Inr (py_int vx, py_int vy)"
    using assms(6) unfolding deg2num_fl_def Let_def n
    by (simp add: vx_def [symmetric] vy_def [symmetric] fx fy)
  moreover have "0 \<le> py_int vx \<and> py_int vx \<le> 2 ^ nat zoom"
    using x by (rule py_int_floor_range)
  moreover have "py_int vx < 2 ^ nat zoom" if "lon \<le> 180 - 1 / 2 ^ 44"
    using py_int_floor_strict [OF x(1) xs [OF that]] by simp
  moreover have "0 \<le> py_int vy \<and> py_int vy < 2 ^ nat zoom"
    using y by (rule py_int_floor_strict)
  ultimately show ?thesis by blast
qed

lemma accurate_exact_libm: "accurate exact_libm"
  by (simp add: accurate_def exact_libm_def)

lemma rnd_half: "rnd (1 / 2) = 1 / 2"
  using rnd_ratio [of 1 1] by simp

lemma rnd_180: "rnd 180 = 180"
  using rnd_of_int [of 180] by simp

lemma py_int_1: "py_int 1 = 1" and py_int_half: "py_int (1 / 2) = 0"
  by (simp_all add: py_int_def)

lemma observed_at_0: "m_tan observed_libm 0 = 0" "m_asinh observed_libm 0 = 0"
  by (simp_all add: observed_libm_def M_PI_def)

lemma fl_radians_0: "fl_radians 0 = 0"
  by (simp add: fl_radians_def)

text \<open>
  The strict bound of C1 fails at \<open>lat = 0\<close>, \<open>lon = 180\<close>, \<open>zoom = 0\<close>: the x tile is 1, outside
  the one-tile grid.
\<close>

theorem deg2num_fl_at_180:
  "deg2num_fl observed_libm 0 180 0 = Inr (1, 0)"
  by (simp add: deg2num_fl_def Let_def fl_radians_0 observed_at_0 rnd_360 rnd_1 rnd_half
      fl_int_def py_int_1 py_int_half)

text \<open>
  The same at the double just below 180: its sum with \<open>180.0\<close> rounds to \<open>360.0\<close>.
\<close>

lemma deg2num_fl_below_180:
  "deg2num_fl observed_libm 0 (180 - 1 / 2 ^ 45) 0 = Inr (1, 0)"
proof -
  have "(180 - 1 / 2 ^ 45 + 180 :: real) = 360 - 1 / 2 ^ 45" by simp
  then have s: "rnd (180 - 1 / 2 ^ 45 + 180) = 360"
    by (simp only: rnd_tie_below_360)
  show ?thesis
    unfolding deg2num_fl_def Let_def s
    by (simp add: fl_radians_0 observed_at_0 rnd_1 rnd_half fl_int_def py_int_1 py_int_half)
qed

theorem deg2num_fl_in_grid_witness:
  "accurate exact_libm \<and> \<bar>0 :: real\<bar> < 85 \<and> (- 180 :: real) \<le> 0 \<and> (0 :: real) \<le> 180
   \<and> (0 :: int) \<le> 1 \<and> (1 :: int) \<le> 1023 \<and> (0 :: real) \<le> 180 - 1 / 2 ^ 44
   \<and> (\<exists>x y. deg2num_fl exact_libm 0 0 1 = Inr (x, y) \<and> 0 \<le> x \<and> x < 2 ^ nat 1 \<and> 0 \<le> y \<and> y < 2 ^ nat 1)"
  using deg2num_fl_in_grid [of exact_libm 0 0 1] accurate_exact_libm by simp blast

lemma round_even_down: "t - of_int \<lfloor>t\<rfloor> < 1 / 2 \<Longrightarrow> round_even t = \<lfloor>t\<rfloor>"
  by (simp add: round_even_def)

lemma rnd_near_below:
  assumes m: "2 ^ 52 \<le> m" "m < 2 ^ 53" and k: "- 1074 \<le> k"
    and lo: "of_int m * 2 powi k \<le> v" and hi: "v < (of_int m + 1 / 2) * 2 powi k"
  shows "rnd v = of_int m * 2 powi k"
proof -
  have pk: "0 < (2::real) powi k" by simp
  have m': "(2::real) ^ 52 \<le> of_int m" "real_of_int m + 1 / 2 < 2 ^ 53"
  proof -
    show "(2::real) ^ 52 \<le> of_int m"
      using m(1) by (simp add: of_int_le_iff [symmetric] del: of_int_le_iff)
    have "m + 1 \<le> 2 ^ 53" using m(2) by simp
    then have "real_of_int (m + 1) \<le> 2 ^ 53"
      by (simp add: of_int_le_iff [symmetric] del: of_int_le_iff of_int_add)
    then show "real_of_int m + 1 / 2 < 2 ^ 53" by simp
  qed
  have "(2::real) powi (k + 52) = 2 ^ 52 * 2 powi k"
    by (simp add: power_int_add)
  also have "\<dots> \<le> of_int m * 2 powi k"
    using m'(1) by (intro mult_right_mono) simp_all
  finally have b1: "2 powi (k + 52) \<le> v" using lo by linarith
  have "(real_of_int m + 1 / 2) * 2 powi k < 2 ^ 53 * 2 powi k"
    using m'(2) pk by (intro mult_strict_right_mono)
  also have "\<dots> = 2 powi (k + 52 + 1)"
    by (simp add: power_int_add)
  finally have b2: "v < 2 powi (k + 52 + 1)" using hi by linarith
  have vpos: "0 < v" using b1 zero_less_power_int [of "2::real" "k + 52"] by linarith
  have "\<lfloor>log 2 \<bar>v\<bar>\<rfloor> = k + 52"
    using b1 b2 vpos by (intro binade_unique) simp_all
  then have e: "ulp_exponent v = k"
    using k by (simp add: ulp_exponent_def)
  have q1: "of_int m \<le> v / 2 powi k"
    using lo pk by (simp add: field_simps)
  have q2: "v / 2 powi k < of_int m + 1 / 2"
    using hi pk by (simp add: field_simps)
  have f: "\<lfloor>v / 2 powi k\<rfloor> = m"
    using q1 q2 by (simp add: floor_eq_iff)
  have "v / 2 powi k - of_int \<lfloor>v / 2 powi k\<rfloor> < 1 / 2"
    unfolding f using q2 by linarith
  then have "round_even (v / 2 powi k) = m"
    using round_even_down [of "v / 2 powi k"] f by simp
  then show ?thesis by (simp add: rnd_def e)
qed

lemma fl_radians_90: "fl_radians 90 = M_PI / 2"
proof -
  have "rnd (90 * degToRad) = of_int 7074237752028440 * 2 powi (- 52)"
    by (rule rnd_near_below) (simp_all add: degToRad_def power_int_minus)
  then show ?thesis
    by (simp add: fl_radians_def M_PI_def power_int_minus)
qed

lemma observed_at_90:
  "m_asinh observed_libm (m_tan observed_libm (M_PI / 2)) = 1337885867383887 / 2 ^ 45"
  by (simp add: observed_libm_def)

lemma py_int_ceiling_11:
  assumes "- (45 / 4) \<le> v" "v \<le> - 11"
  shows "py_int v = - 11"
proof -
  have "\<lceil>v\<rceil> = - 11"
    using assms by (simp add: ceiling_eq_iff)
  then show ?thesis using assms by (simp add: py_int_def)
qed

text \<open>
  C8 does not hold at the input it names: at \<open>lat = 90\<close> (\<open>lon = 0\<close>, \<open>zoom = 1\<close>), with the
  answers of the platform's library, \<^verbatim>\<open>deg2num\<close> raises nothing and returns \<open>(1, -11)\<close>.
\<close>

theorem deg2num_fl_at_90:
  "deg2num_fl observed_libm 90 0 1 = Inr (1, - 11)"
proof -
  define r where "r = rnd (1337885867383887 / 2 ^ 45 / M_PI)"
  define d where "d = rnd (1 - r)"
  define h where "h = rnd (d / 2)"
  define vy where "vy = rnd (h * 2)"
  have e12: "rnd 12 = 12" "rnd (49 / 4) = 49 / 4"
    using rnd_of_int [of 12] rnd_ratio [of 49 2] by simp_all
  have r: "12 \<le> r \<and> r \<le> 49 / 4"
    unfolding r_def by (intro rnd_between e12) (simp_all add: M_PI_def)
  have e11: "rnd (- (45 / 4)) = - (45 / 4)" "rnd (- 11) = - 11"
    using rnd_ratio [of "- 45" 2] rnd_of_int [of "- 11"] by simp_all
  have d: "- (45 / 4) \<le> d \<and> d \<le> - 11"
    unfolding d_def using r by (intro rnd_between e11) simp_all
  have e5: "rnd (- (45 / 8)) = - (45 / 8)" "rnd (- (11 / 2)) = - (11 / 2)"
    using rnd_ratio [of "- 45" 3] rnd_ratio [of "- 11" 1] by simp_all
  have h: "- (45 / 8) \<le> h \<and> h \<le> - (11 / 2)"
    unfolding h_def using d by (intro rnd_between e5) simp_all
  have vy: "- (45 / 4) \<le> vy \<and> vy \<le> - 11"
    unfolding vy_def using h by (intro rnd_between e11) simp_all
  have fy: "fl_int vy = Inr (- 11)"
    using vy py_int_ceiling_11 [of vy] by (simp add: fl_int_def)
  have n: "rnd (2 powi 1) = 2"
    using rnd_of_int [of 2] by simp
  have x: "rnd (rnd (rnd (0 + 180) / 360) * 2) = 1"
    by (simp add: rnd_180 rnd_half rnd_1)
  have fx: "fl_int 1 = Inr 1"
    by (simp add: fl_int_def py_int_1)
  show ?thesis
    unfolding deg2num_fl_def Let_def n fl_radians_90 observed_at_90 x
    using fy fx by (simp add: vy_def h_def d_def r_def)
qed

lemma exp_32_le: "exp (32 / 10 :: real) \<le> 2836 / 100"
proof -
  have b: "exp (1 / 20 :: real) \<le> 1 + 1 / 20 + (1 / 20)\<^sup>2"
    by (rule exp_bound) simp_all
  have "(32 / 10 :: real) = of_nat 64 * (1 / 20)" by simp
  then have "exp (32 / 10 :: real) = exp (of_nat 64 * (1 / 20))" by simp
  also have "\<dots> = exp (1 / 20) ^ 64"
    by (rule exp_of_nat_mult)
  also have "\<dots> \<le> (1 + 1 / 20 + (1 / 20)\<^sup>2) ^ 64"
    by (rule power_mono [OF b]) simp
  also have "\<dots> \<le> 2836 / 100"
    by (simp add: power2_eq_square power_numeral_reduce)
  finally show ?thesis .
qed

lemma sinh_32_le: "sinh (32 / 10 :: real) \<le> 1418 / 100"
  using sinh_le [OF exp_32_le] by simp

lemma exp_5_ge: "(145 :: real) \<le> exp 5"
proof -
  have "(\<Sum>k<5. (1 :: real) ^ k / fact k) \<le> exp 1"
    by (rule exp_ge_partial_sum) simp
  then have e: "(65 / 24 :: real) \<le> exp 1"
    by (simp add: lessThan_nat_numeral lessThan_Suc fact_numeral)
  have "exp (5 :: real) = exp (of_nat 5 * 1)" by simp
  also have "\<dots> = exp 1 ^ 5" by (rule exp_of_nat_mult)
  finally have "exp (5 :: real) = exp 1 ^ 5" .
  moreover have "(65 / 24 :: real) ^ 5 \<le> exp 1 ^ 5"
    by (rule power_mono [OF e]) simp
  ultimately show ?thesis by (simp add: power_numeral_reduce)
qed

lemma sinh_5_ge: "(586 / 10 :: real) \<le> sinh 5"
proof -
  have "(586 / 10 :: real) \<le> (145 - 1 / 145) / 2" by simp
  also have "\<dots> \<le> sinh (5 :: real)"
    by (rule sinh_ge [OF _ exp_5_ge]) simp
  finally show ?thesis .
qed

text \<open>The tangent for latitudes from 91 to 94 degrees.\<close>

lemma tan_beyond_pole:
  fixes lr :: real
  assumes "6505 / 4096 \<le> lr" "lr \<le> 6721 / 4096"
  shows "- (585 / 10) \<le> tan lr" and "tan lr \<le> - (14184 / 1000)" and "cos lr \<noteq> 0"
proof -
  define u where "u = lr - pi / 2"
  have u: "171 / 10000 \<le> u" "u \<le> 7012 / 100000"
    using assms pi_lower_4 pi_upper by (simp_all add: u_def)
  have upos: "0 < u" and uhalf: "u < pi / 2" and upi: "u < pi"
    using u pi_lower_4 by simp_all
  have t1: "u \<le> tan u"
    using upos uhalf by (intro self_le_tan) simp_all
  have "u \<le> 705 / 10000 - (705 / 10000) ^ 3 / (3 :: real)"
    using u(2) by (simp add: power3_eq_cube)
  also have "\<dots> \<le> arctan (705 / 10000)"
    by (rule arctan_ge_cubic) simp
  finally have t2: "tan u \<le> 705 / 10000"
    using upos by (intro tan_le_of_le_arctan) simp_all
  have tpos: "0 < tan u" using t1 upos by linarith
  have "lr = pi / 2 - (- u)" by (simp add: u_def)
  then have "tan lr = inverse (tan (- u))"
    using tan_cot [of "- u"] by simp
  then have tl: "tan lr = - (1 / tan u)"
    by (simp add: inverse_eq_divide)
  define q where "q = 1 / tan u"
  have "q \<le> 1 / (171 / 10000)"
    unfolding q_def using t1 u(1) by (intro divide_left_mono) (auto intro: mult_pos_pos tpos)
  then have q1: "q \<le> 585 / 10" by simp
  have "1 / (705 / 10000) \<le> q"
    unfolding q_def using t2 tpos by (intro divide_left_mono) (auto intro: mult_pos_pos)
  then have q2: "14184 / 1000 \<le> q" by simp
  show "- (585 / 10) \<le> tan lr"
    unfolding tl q_def [symmetric] using q1 by linarith
  show "tan lr \<le> - (14184 / 1000)"
    unfolding tl q_def [symmetric] using q2 by linarith
  have "cos lr = - sin u"
    using minus_sin_cos_eq [of u] by (simp add: u_def)
  moreover have "0 < sin u" using upos upi by (rule sin_gt_zero)
  ultimately show "cos lr \<noteq> 0" by simp
qed

lemma fl_radians_beyond_pole:
  assumes "91 \<le> lat" "lat \<le> 94"
  shows "6505 / 4096 \<le> fl_radians lat \<and> fl_radians lat \<le> 6721 / 4096"
proof -
  have e: "rnd (6505 / 4096) = 6505 / 4096" "rnd (6721 / 4096) = 6721 / 4096"
    using rnd_ratio [of 6505 12] rnd_ratio [of 6721 12] by simp_all
  have c: "0 \<le> degToRad" "6505 / 4096 \<le> 91 * degToRad" "94 * degToRad \<le> 6721 / 4096"
    by (simp_all add: degToRad_def)
  have "91 * degToRad \<le> lat * degToRad" "lat * degToRad \<le> 94 * degToRad"
    using assms c(1) by (simp_all add: mult_right_mono)
  then have "6505 / 4096 \<le> lat * degToRad" "lat * degToRad \<le> 6721 / 4096"
    using c(2,3) by linarith+
  then show ?thesis
    unfolding fl_radians_def by (intro rnd_between e)
qed

lemma y_chain_beyond_pole:
  assumes acc: "accurate L" and lr: "6505 / 4096 \<le> lr" "lr \<le> 6721 / 4096"
  shows "2 ^ k \<le> rnd (rnd (rnd (1 - rnd (m_asinh L (m_tan L lr) / M_PI)) / 2) * 2 ^ k)
       \<and> rnd (rnd (rnd (1 - rnd (m_asinh L (m_tan L lr) / M_PI)) / 2) * 2 ^ k) \<le> 3 / 2 * 2 ^ k"
proof -
  define t where "t = m_tan L lr"
  define w where "w = m_asinh L t"
  note tb = tan_beyond_pole [OF lr]
  have "\<bar>t - tan lr\<bar> \<le> \<bar>tan lr\<bar> / 2 ^ 20"
    using acc tb(3) by (simp add: accurate_def t_def)
  then have t: "- (586 / 10) \<le> t" "t \<le> - (1418 / 100)"
    using tb(1,2) by (simp_all add: abs_le_iff)
  have a1: "- 5 \<le> arsinh t"
  proof -
    have "- t \<le> sinh 5" using t(1) sinh_5_ge by linarith
    then have "arsinh (- t) \<le> arsinh (sinh 5)" by (rule arsinh_le)
    then show ?thesis by (simp add: arsinh_sinh_real)
  qed
  have a2: "arsinh t \<le> - (32 / 10)"
  proof -
    have "sinh (32 / 10) \<le> - t" using t(2) sinh_32_le by linarith
    then have "32 / 10 \<le> arsinh (- t)" by (rule arsinh_ge)
    then show ?thesis by simp
  qed
  have "\<bar>w - arsinh t\<bar> \<le> \<bar>arsinh t\<bar> / 2 ^ 20"
    using acc by (simp add: accurate_def w_def)
  then have w: "- (501 / 100) \<le> w" "w \<le> - (319 / 100)"
    using a1 a2 by (simp_all add: abs_le_iff)
  have wq: "- 2 \<le> w / M_PI" "w / M_PI \<le> - 1"
    using w by (simp_all add: M_PI_def field_simps)
  have e1: "rnd (- 2) = - 2" "rnd (- 1) = - 1"
    using rnd_of_int [of "- 2"] rnd_of_int [of "- 1"] by simp_all
  have r: "- 2 \<le> rnd (w / M_PI) \<and> rnd (w / M_PI) \<le> - 1"
    by (intro rnd_between e1 wq)
  have e2: "rnd 3 = 3"
    using rnd_of_int [of 3] by simp
  have d: "2 \<le> rnd (1 - rnd (w / M_PI)) \<and> rnd (1 - rnd (w / M_PI)) \<le> 3"
    using r by (intro rnd_between rnd_2 e2) simp_all
  have e3: "rnd (3 / 2) = 3 / 2"
    using rnd_ratio [of 3 1] by simp
  have h: "1 \<le> rnd (rnd (1 - rnd (w / M_PI)) / 2) \<and> rnd (rnd (1 - rnd (w / M_PI)) / 2) \<le> 3 / 2"
    using d by (intro rnd_between rnd_1 e3) simp_all
  define hh where "hh = rnd (rnd (1 - rnd (w / M_PI)) / 2)"
  have hb: "1 \<le> hh" "hh \<le> 3 / 2"
    using h by (simp_all add: hh_def)
  have p: "rnd (2 ^ k :: real) = 2 ^ k"
    using rnd_power_of_two [of "int k"] by simp
  have e4: "rnd (3 / 2 * 2 ^ k) = 3 / 2 * 2 ^ k"
  proof -
    have "(3 / 2 * 2 ^ k :: real) = of_int 3 * 2 powi (int k - 1)"
      by (simp add: power_int_diff)
    then show ?thesis
      using rnd_exact [of "3 / 2 * 2 ^ k" 3 "int k - 1"] by simp
  qed
  have "1 * 2 ^ k \<le> hh * 2 ^ k" "hh * 2 ^ k \<le> 3 / 2 * 2 ^ k"
    using hb by (intro mult_right_mono; simp)+
  then have "2 ^ k \<le> hh * 2 ^ k" "hh * 2 ^ k \<le> 3 / 2 * 2 ^ k" by simp_all
  then have "2 ^ k \<le> rnd (hh * 2 ^ k) \<and> rnd (hh * 2 ^ k) \<le> 3 / 2 * 2 ^ k"
    by (intro rnd_between p e4)
  then show ?thesis
    unfolding hh_def w_def t_def .
qed

lemma py_int_floor_ge:
  assumes "2 ^ k \<le> v"
  shows "2 ^ k \<le> py_int v"
proof -
  have "\<lfloor>2 ^ k :: real\<rfloor> \<le> \<lfloor>v\<rfloor>" using assms by (rule floor_mono)
  moreover have "0 \<le> v" using assms zero_le_power [of "2::real" k] by linarith
  ultimately show ?thesis by (simp add: py_int_def)
qed

text \<open>
  C8. \<^verbatim>\<open>deg2num\<close> checks no input domain and has no \<^verbatim>\<open>DomainError\<close>: the
  only exception it raises (for finite arguments) is Python's \<^verbatim>\<open>OverflowError\<close>. On a
  latitude beyond the pole it returns a tile silently: for every latitude from 91 to 94
  degrees (\<open>-180 \<le> lon \<le> 180\<close>, \<open>0 \<le> zoom \<le> 1023\<close>, an accurate library) it returns a pair
  whose \<open>y\<close> is at least \<open>2^zoom\<close>, outside the grid.
\<close>

theorem deg2num_fl_no_domain_error:
  "(\<forall>e. deg2num_fl L lat lon zoom = Inl e \<longrightarrow> e = OverflowError)
   \<and> (accurate L \<and> 91 \<le> lat \<and> lat \<le> 94 \<and> - 180 \<le> lon \<and> lon \<le> 180 \<and> 0 \<le> zoom \<and> zoom \<le> 1023
        \<longrightarrow> (\<exists>x y. deg2num_fl L lat lon zoom = Inr (x, y) \<and> 2 ^ nat zoom \<le> y))"
proof (intro conjI allI impI)
  fix e
  assume "deg2num_fl L lat lon zoom = Inl e"
  then show "e = OverflowError"
    by (auto simp: deg2num_fl_def fl_int_def Let_def split: if_splits sum.splits)
next
  assume h: "accurate L \<and> 91 \<le> lat \<and> lat \<le> 94 \<and> - 180 \<le> lon \<and> lon \<le> 180 \<and> 0 \<le> zoom \<and> zoom \<le> 1023"
  define vx where "vx = rnd (rnd (rnd (lon + 180) / 360) * 2 ^ nat zoom)"
  define vy where
    "vy = rnd (rnd (rnd (1 - rnd (m_asinh L (m_tan L (fl_radians lat)) / M_PI)) / 2) * 2 ^ nat zoom)"
  have n: "rnd (2 powi zoom) = 2 ^ nat zoom"
    using h by (intro zoom_power) simp
  have big: "(2::real) ^ nat zoom \<le> 2 ^ 1023"
    using h by (intro power_le_1023) simp_all
  have x: "0 \<le> vx" "vx \<le> 2 ^ nat zoom"
    using x_chain [of lon "nat zoom"] h by (simp_all add: vx_def)
  have lr: "6505 / 4096 \<le> fl_radians lat" "fl_radians lat \<le> 6721 / 4096"
    using fl_radians_beyond_pole [of lat] h by simp_all
  have y: "2 ^ nat zoom \<le> vy" "vy \<le> 3 / 2 * 2 ^ nat zoom"
    using y_chain_beyond_pole [OF _ lr, of L "nat zoom"] h by (simp_all add: vy_def)
  have fx: "fl_int vx = Inr (py_int vx)"
    using x big by (intro fl_int_finite) simp
  have "0 \<le> vy" using y(1) zero_le_power [of "2::real" "nat zoom"] by linarith
  then have fy: "fl_int vy = Inr (py_int vy)"
    using y big by (intro fl_int_finite) simp
  have "deg2num_fl L lat lon zoom = Inr (py_int vx, py_int vy)"
    using h unfolding deg2num_fl_def Let_def n
    by (simp add: vx_def [symmetric] vy_def [symmetric] fx fy)
  moreover have "2 ^ nat zoom \<le> py_int vy"
    using y(1) by (rule py_int_floor_ge)
  ultimately show "\<exists>x y. deg2num_fl L lat lon zoom = Inr (x, y) \<and> 2 ^ nat zoom \<le> y"
    by blast
qed

theorem deg2num_fl_no_domain_error_witness:
  "deg2num_fl exact_libm 0 0 1024 = Inl OverflowError
   \<and> accurate exact_libm \<and> (91 :: real) \<le> 91 \<and> (91 :: real) \<le> 94 \<and> (- 180 :: real) \<le> 0
   \<and> (0 :: real) \<le> 180 \<and> (0 :: int) \<le> 1 \<and> (1 :: int) \<le> 1023
   \<and> (\<exists>x y. deg2num_fl exact_libm 91 0 1 = Inr (x, y) \<and> 2 ^ nat 1 \<le> y)"
  using deg2num_fl_no_domain_error [of exact_libm 0 0 1024]
    deg2num_fl_no_domain_error [of exact_libm 91 0 1] accurate_exact_libm
  by (simp add: deg2num_fl_def)

end
